theory Spec2Isabelle
  imports Main "HOL-Library.List_Lexorder" "HOL-Library.Char_ord"
begin

section \<open>Data model (lib/indexedDB)\<close>

text \<open>
  The three interfaces of the local store. A timestamp field holds the ISO string that
  \<^verbatim>\<open>new Date().toISOString()\<close> produced; it is represented by the instant it denotes
  (milliseconds since the epoch), which is what \<^verbatim>\<open>new Date(s).getTime()\<close> reads back.
  A field of type \<^verbatim>\<open>string | null\<close> is a \<^typ>\<open>string option\<close>. A position is an
  integer-valued number. The field names
  carry a prefix because both record interfaces have an \<^verbatim>\<open>id\<close>, a
  \<^verbatim>\<open>description\<close>, a \<^verbatim>\<open>created_at\<close> and an \<^verbatim>\<open>updated_at\<close>.
\<close>

type_synonym timestamp = int

record LocalCheatsheet =
  c_id :: string
  c_title :: string
  c_description :: "string option"
  c_created_at :: timestamp
  c_updated_at :: timestamp
  c_deleted_at :: "timestamp option"

record LocalSyntaxEntry =
  e_id :: string
  e_cheatsheet_id :: string
  e_syntax :: string
  e_category :: string
  e_description :: "string option"
  e_example :: "string option"
  e_notes :: "string option"
  e_display_format :: string
  e_language :: string
  e_position :: int
  e_created_at :: timestamp
  e_updated_at :: timestamp

record AppConfig =
  supabaseUrl :: "string option"
  supabaseAnonKey :: "string option"
  geminiApiKey :: "string option"

section \<open>The object stores\<close>

text \<open>
  An object store with key path \<^verbatim>\<open>id\<close> is the list of its records in the order
  \<^verbatim>\<open>store.getAll()\<close> returns them, which is the order of the keys. \<^verbatim>\<open>store.put\<close>
  replaces the record that has the key of the item, or adds the item at its place in the key
  order; \<^verbatim>\<open>store.delete\<close> removes the record with the key, and does nothing when there is
  none. The function \<open>key\<close> reads the key path of a record.
\<close>

definition getAll :: "'a list \<Rightarrow> 'a list" where
  "getAll store = store"

definition put :: "('a \<Rightarrow> string) \<Rightarrow> 'a \<Rightarrow> 'a list \<Rightarrow> 'a list" where
  "put key item store =
     (if \<exists>x \<in> set store. key x = key item
      then map (\<lambda>x. if key x = key item then item else x) store
      else insort_key key item store)"

definition remove :: "('a \<Rightarrow> string) \<Rightarrow> string \<Rightarrow> 'a list \<Rightarrow> 'a list" where
  "remove key i store = filter (\<lambda>x. key x \<noteq> i) store"

text \<open>The database: the two record collections (the config store is kept by the provider).\<close>

record db =
  cheatsheets :: "LocalCheatsheet list"
  entries :: "LocalSyntaxEntry list"

definition cheatsheetsDB_getAll :: "db \<Rightarrow> LocalCheatsheet list" where
  "cheatsheetsDB_getAll s = getAll (cheatsheets s)"

definition cheatsheetsDB_put :: "LocalCheatsheet \<Rightarrow> db \<Rightarrow> db" where
  "cheatsheetsDB_put cheatsheet s = s\<lparr>cheatsheets := put c_id cheatsheet (cheatsheets s)\<rparr>"

definition cheatsheetsDB_delete :: "string \<Rightarrow> db \<Rightarrow> db" where
  "cheatsheetsDB_delete i s = s\<lparr>cheatsheets := remove c_id i (cheatsheets s)\<rparr>"

text \<open>\<^verbatim>\<open>all.find(c => c.id === id) || null\<close>: the first record with the id, or null.\<close>

definition cheatsheetsDB_get :: "string \<Rightarrow> db \<Rightarrow> LocalCheatsheet option" where
  "cheatsheetsDB_get i s = find (\<lambda>c. c_id c = i) (cheatsheetsDB_getAll s)"

definition entriesDB_getAll :: "db \<Rightarrow> LocalSyntaxEntry list" where
  "entriesDB_getAll s = getAll (entries s)"

definition entriesDB_put :: "LocalSyntaxEntry \<Rightarrow> db \<Rightarrow> db" where
  "entriesDB_put entry s = s\<lparr>entries := put e_id entry (entries s)\<rparr>"

definition entriesDB_delete :: "string \<Rightarrow> db \<Rightarrow> db" where
  "entriesDB_delete i s = s\<lparr>entries := remove e_id i (entries s)\<rparr>"

definition entriesDB_getByCheatsheetId :: "string \<Rightarrow> db \<Rightarrow> LocalSyntaxEntry list" where
  "entriesDB_getByCheatsheetId cheatsheetId s =
     filter (\<lambda>e. e_cheatsheet_id e = cheatsheetId) (entriesDB_getAll s)"

text \<open>
  \<^verbatim>\<open>deleteByCheatsheetId\<close> reads the store once and then deletes the selected entries one
  by one, each in a transaction of its own. \<open>deleteByCheatsheetId_steps\<close> lists the database
  after each of these deletions; the function itself returns the last of them.
\<close>

definition entriesDB_deleteByCheatsheetId :: "string \<Rightarrow> db \<Rightarrow> db" where
  "entriesDB_deleteByCheatsheetId cheatsheetId s =
     (let toDelete = filter (\<lambda>e. e_cheatsheet_id e = cheatsheetId) (entriesDB_getAll s)
      in foldl (\<lambda>s' entry. entriesDB_delete (e_id entry) s') s toDelete)"

fun delete_steps :: "LocalSyntaxEntry list \<Rightarrow> db \<Rightarrow> db list" where
  "delete_steps [] s = []"
| "delete_steps (entry # rest) s =
     entriesDB_delete (e_id entry) s # delete_steps rest (entriesDB_delete (e_id entry) s)"

definition deleteByCheatsheetId_steps :: "string \<Rightarrow> db \<Rightarrow> db list" where
  "deleteByCheatsheetId_steps cheatsheetId s =
     delete_steps (filter (\<lambda>e. e_cheatsheet_id e = cheatsheetId) (entriesDB_getAll s)) s"

section \<open>The application context (contexts/AppContext)\<close>

datatype mode = guest | cloud

text \<open>
  A value of type \<^verbatim>\<open>string | null\<close> in a condition: null and the empty string are
  falsy, every other string is truthy.
\<close>

fun truthy :: "string option \<Rightarrow> bool" where
  "truthy None = False"
| "truthy (Some s) = (s \<noteq> [])"

text \<open>\<^verbatim>\<open>const mode = config.supabaseUrl && config.supabaseAnonKey ? "cloud" : "guest"\<close>\<close>

definition AppProvider_mode :: "AppConfig \<Rightarrow> mode" where
  "AppProvider_mode config =
     (if truthy (supabaseUrl config) \<and> truthy (supabaseAnonKey config) then cloud else guest)"

definition hasGemini :: "AppConfig \<Rightarrow> bool" where
  "hasGemini config = truthy (geminiApiKey config)"

text \<open>
  A \<^verbatim>\<open>Partial<AppConfig>\<close>: each field is absent (\<open>None\<close>) or present with its value.
  \<^verbatim>\<open>updateConfig\<close> spreads the present fields over the previous configuration.
\<close>

record PartialAppConfig =
  p_supabaseUrl :: "string option option"
  p_supabaseAnonKey :: "string option option"
  p_geminiApiKey :: "string option option"

definition spread :: "'a \<Rightarrow> 'a option \<Rightarrow> 'a" where
  "spread prev new = (case new of None \<Rightarrow> prev | Some v \<Rightarrow> v)"

definition updateConfig :: "PartialAppConfig \<Rightarrow> AppConfig \<Rightarrow> AppConfig" where
  "updateConfig newConfig prev =
     \<lparr>supabaseUrl = spread (supabaseUrl prev) (p_supabaseUrl newConfig),
      supabaseAnonKey = spread (supabaseAnonKey prev) (p_supabaseAnonKey newConfig),
      geminiApiKey = spread (geminiApiKey prev) (p_geminiApiKey newConfig)\<rparr>"

definition clearConfig :: "AppConfig \<Rightarrow> AppConfig" where
  "clearConfig prev = \<lparr>supabaseUrl = None, supabaseAnonKey = None, geminiApiKey = None\<rparr>"

text \<open>
  What a hook reads from \<^verbatim>\<open>useApp()\<close>: the mode, whether the remote client handle is
  non-null and whether a user is signed in.
\<close>

record AppContext =
  mode :: mode
  supabaseClient :: bool
  user :: bool

text \<open>
  The remote store is not part of the program. Where a hook takes its cloud branch, the answer
  of the remote store to each request is a parameter: the \<^verbatim>\<open>error\<close> field of the answer
  (\<open>None\<close> for null) and, for a query, its \<^verbatim>\<open>data\<close> field. The cloud branch never touches
  the local database.
\<close>

datatype error = RemoteError string

section \<open>Cheatsheet hooks (hooks/useCheatsheets)\<close>

datatype view = active | trash

definition useCheatsheets ::
  "AppContext \<Rightarrow> LocalCheatsheet list option \<times> error option \<Rightarrow> view \<Rightarrow> db
     \<Rightarrow> error + LocalCheatsheet list" where
  "useCheatsheets ctx reply v s =
     (if mode ctx = cloud \<and> supabaseClient ctx \<and> user ctx then
        (case snd reply of
           Some e \<Rightarrow> Inl e
         | None \<Rightarrow>
             (case fst reply of
                None \<Rightarrow> Inr []
              | Some data \<Rightarrow>
                  if v = trash then Inr (filter (\<lambda>c. c_deleted_at c \<noteq> None) data)
                  else Inr (filter (\<lambda>c. c_deleted_at c = None) data)))
      else
        (let localCheatsheets = cheatsheetsDB_getAll s;
             sorted = sort_key (\<lambda>c. - c_created_at c) localCheatsheets
         in if v = trash then Inr (filter (\<lambda>c. c_deleted_at c \<noteq> None) sorted)
            else Inr (filter (\<lambda>c. c_deleted_at c = None) sorted)))"

definition useSoftDeleteCheatsheet ::
  "AppContext \<Rightarrow> error option \<Rightarrow> timestamp \<Rightarrow> string \<Rightarrow> db \<Rightarrow> error + db" where
  "useSoftDeleteCheatsheet ctx reply now i s =
     (if mode ctx = cloud \<and> supabaseClient ctx then
        (case reply of Some e \<Rightarrow> Inl e | None \<Rightarrow> Inr s)
      else
        (case cheatsheetsDB_get i s of
           Some cheatsheet \<Rightarrow> Inr (cheatsheetsDB_put (cheatsheet\<lparr>c_deleted_at := Some now\<rparr>) s)
         | None \<Rightarrow> Inr s))"

definition useRestoreCheatsheet ::
  "AppContext \<Rightarrow> error option \<Rightarrow> string \<Rightarrow> db \<Rightarrow> error + db" where
  "useRestoreCheatsheet ctx reply i s =
     (if mode ctx = cloud \<and> supabaseClient ctx then
        (case reply of Some e \<Rightarrow> Inl e | None \<Rightarrow> Inr s)
      else
        (case cheatsheetsDB_get i s of
           Some cheatsheet \<Rightarrow> Inr (cheatsheetsDB_put (cheatsheet\<lparr>c_deleted_at := None\<rparr>) s)
         | None \<Rightarrow> Inr s))"

text \<open>
  The permanent delete. In the cloud branch the error of the first request (the entries) is
  not read; only the error of the second (the cheatsheet row) is thrown. In guest mode the
  entries are deleted, then the cheatsheet record. \<open>purge_steps\<close> lists the database after
  every write of the guest branch, in the order the writes happen.
\<close>

definition usePermanentDeleteCheatsheet ::
  "AppContext \<Rightarrow> error option \<Rightarrow> error option \<Rightarrow> string \<Rightarrow> db \<Rightarrow> error + db" where
  "usePermanentDeleteCheatsheet ctx reply_entries reply_cheatsheet i s =
     (if mode ctx = cloud \<and> supabaseClient ctx then
        (case reply_cheatsheet of Some e \<Rightarrow> Inl e | None \<Rightarrow> Inr s)
      else Inr (cheatsheetsDB_delete i (entriesDB_deleteByCheatsheetId i s)))"

definition purge_steps :: "string \<Rightarrow> db \<Rightarrow> db list" where
  "purge_steps i s =
     (let ds = deleteByCheatsheetId_steps i s
      in ds @ [cheatsheetsDB_delete i (last (s # ds))])"

definition useCheatsheet ::
  "AppContext \<Rightarrow> LocalCheatsheet option \<times> error option \<Rightarrow> string \<Rightarrow> db
     \<Rightarrow> error + LocalCheatsheet option" where
  "useCheatsheet ctx reply i s =
     (if mode ctx = cloud \<and> supabaseClient ctx then
        (case snd reply of Some e \<Rightarrow> Inl e | None \<Rightarrow> Inr (fst reply))
      else Inr (cheatsheetsDB_get i s))"

section \<open>Entry hooks (hooks/useSyntaxEntries)\<close>

text \<open>
  \<^verbatim>\<open>entries.sort((a, b) => a.position - b.position)\<close> is a stable ascending sort, as
  \<^const>\<open>sort_key\<close> is.
\<close>

definition useSyntaxEntries ::
  "AppContext \<Rightarrow> LocalSyntaxEntry list option \<times> error option \<Rightarrow> string \<Rightarrow> db
     \<Rightarrow> error + LocalSyntaxEntry list" where
  "useSyntaxEntries ctx reply cheatsheetId s =
     (if mode ctx = cloud \<and> supabaseClient ctx then
        (case snd reply of
           Some e \<Rightarrow> Inl e
         | None \<Rightarrow> (case fst reply of None \<Rightarrow> Inr [] | Some data \<Rightarrow> Inr data))
      else Inr (sort_key e_position (entriesDB_getByCheatsheetId cheatsheetId s)))"

text \<open>The argument of the create mutation: an entry without id, notes and timestamps.\<close>

record NewEntry =
  n_cheatsheet_id :: string
  n_syntax :: string
  n_category :: string
  n_description :: "string option"
  n_example :: "string option"
  n_display_format :: string
  n_language :: string
  n_position :: int

text \<open>
  \<^verbatim>\<open>generateId()\<close> and the two readings of the clock are parameters. The mutation returns
  the created entry (the \<^verbatim>\<open>data\<close> of the answer in the cloud branch) with the database.
\<close>

definition useCreateEntry ::
  "AppContext \<Rightarrow> LocalSyntaxEntry option \<times> error option \<Rightarrow> string \<Rightarrow> timestamp \<Rightarrow> timestamp
     \<Rightarrow> NewEntry \<Rightarrow> db \<Rightarrow> error + (LocalSyntaxEntry option \<times> db)" where
  "useCreateEntry ctx reply generateId now1 now2 entry s =
     (if mode ctx = cloud \<and> supabaseClient ctx then
        (case snd reply of Some e \<Rightarrow> Inl e | None \<Rightarrow> Inr (fst reply, s))
      else
        (let newEntry =
               \<lparr>e_id = generateId,
                e_cheatsheet_id = n_cheatsheet_id entry,
                e_syntax = n_syntax entry,
                e_category = n_category entry,
                e_description = n_description entry,
                e_example = n_example entry,
                e_notes = None,
                e_display_format = n_display_format entry,
                e_language = n_language entry,
                e_position = n_position entry,
                e_created_at = now1,
                e_updated_at = now2\<rparr>
         in Inr (Some newEntry, entriesDB_put newEntry s)))"

record EntryUpdate =
  u_id :: string
  u_cheatsheet_id :: string
  u_syntax :: string
  u_category :: string
  u_description :: "string option"
  u_example :: "string option"
  u_display_format :: string
  u_language :: string

definition useUpdateEntry ::
  "AppContext \<Rightarrow> error option \<Rightarrow> timestamp \<Rightarrow> EntryUpdate \<Rightarrow> db \<Rightarrow> error + db" where
  "useUpdateEntry ctx reply now entry s =
     (if mode ctx = cloud \<and> supabaseClient ctx then
        (case reply of Some e \<Rightarrow> Inl e | None \<Rightarrow> Inr s)
      else
        (case find (\<lambda>e. e_id e = u_id entry) (entriesDB_getAll s) of
           Some existing \<Rightarrow>
             Inr (entriesDB_put
                    (existing\<lparr>e_id := u_id entry,
                              e_cheatsheet_id := u_cheatsheet_id entry,
                              e_syntax := u_syntax entry,
                              e_category := u_category entry,
                              e_description := u_description entry,
                              e_example := u_example entry,
                              e_display_format := u_display_format entry,
                              e_language := u_language entry,
                              e_updated_at := now\<rparr>) s)
         | None \<Rightarrow> Inr s))"

definition useDeleteEntry :: "AppContext \<Rightarrow> error option \<Rightarrow> string \<Rightarrow> db \<Rightarrow> error + db" where
  "useDeleteEntry ctx reply i s =
     (if mode ctx = cloud \<and> supabaseClient ctx then
        (case reply of Some e \<Rightarrow> Inl e | None \<Rightarrow> Inr s)
      else Inr (entriesDB_delete i s))"

text \<open>
  \<^verbatim>\<open>new Map(entries.map(e => [e.id, e.position]))\<close>: the pairs are set in order, so the
  last pair of an id is the one the map keeps.
\<close>

definition positionMap :: "(string \<times> int) list \<Rightarrow> (string \<rightharpoonup> int)" where
  "positionMap updates = foldl (\<lambda>m (i, p). m(i \<mapsto> p)) Map.empty updates"

text \<open>
  The reorder mutation. In the cloud branch one request is sent for each update, in order,
  and the first answer with an error is thrown (\<open>replies k\<close> is the error of the answer to the
  request number \<open>k\<close>). In guest mode every entry of the store, over all cheatsheets, whose id
  is in the map is written back with the position of the map; \<^verbatim>\<open>cheatsheet_id\<close> is not
  read.
\<close>

definition useReorderEntries ::
  "AppContext \<Rightarrow> (nat \<Rightarrow> error option) \<Rightarrow> string \<Rightarrow> (string \<times> int) list \<Rightarrow> db
     \<Rightarrow> error + db" where
  "useReorderEntries ctx replies cheatsheet_id updates s =
     (if mode ctx = cloud \<and> supabaseClient ctx then
        (case List.map_filter replies [0..<length updates] of
           e # _ \<Rightarrow> Inl e
         | [] \<Rightarrow> Inr s)
      else
        (let all = entriesDB_getAll s
         in Inr (foldl (\<lambda>s' entry.
                    case positionMap updates (e_id entry) of
                      Some p \<Rightarrow> entriesDB_put (entry\<lparr>e_position := p\<rparr>) s'
                    | None \<Rightarrow> s') s all)))"

text \<open>
  The entry that the guest loop leaves in the store for \<open>entry\<close>: the entry itself when the
  map has no position for its id, and \<^verbatim>\<open>{ ...entry, position }\<close> otherwise.
\<close>

definition with_position :: "(string \<rightharpoonup> int) \<Rightarrow> LocalSyntaxEntry \<Rightarrow> LocalSyntaxEntry" where
  "with_position m entry =
     (case m (e_id entry) of None \<Rightarrow> entry | Some p \<Rightarrow> entry\<lparr>e_position := p\<rparr>)"

section \<open>The editor (components/CheatsheetEditor)\<close>

text \<open>
  \<^verbatim>\<open>!s.trim()\<close>: the string is empty once its white space is stripped. A character of
  a string is a code unit below 256; of these, \<^verbatim>\<open>trim\<close> strips tab, line feed, vertical
  tab, form feed, carriage return, space and the no-break space U+00A0.
\<close>

definition white_space :: "char \<Rightarrow> bool" where
  "white_space c =
     (c \<in> {CHR 0x09, CHR 0x0A, CHR 0x0B, CHR 0x0C, CHR 0x0D, CHR 0x20, CHR 0xA0})"

definition trim_empty :: "string \<Rightarrow> bool" where
  "trim_empty s = list_all white_space s"

text \<open>\<^verbatim>\<open>entry.position || 0\<close>: the number 0 is the only falsy integer.\<close>

definition or_zero :: "int \<Rightarrow> int" where
  "or_zero p = (if p = 0 then 0 else p)"

text \<open>
  \<^verbatim>\<open>entries?.reduce((max, entry) => Math.max(max, entry.position || 0), -1) ?? -1\<close>, where
  \<open>entries\<close> is the data of the entries query, \<open>None\<close> while it is undefined.
\<close>

fun maxPosition :: "LocalSyntaxEntry list option \<Rightarrow> int" where
  "maxPosition None = - 1"
| "maxPosition (Some es) = foldl (\<lambda>m entry. max m (or_zero (e_position entry))) (- 1) es"

text \<open>
  \<^verbatim>\<open>maxPosition + 1\<close> on numbers. A position is an integer-valued double. Below \<open>2^53\<close>
  the sum is exact. From \<open>2^53\<close> to \<open>2^54\<close> the doubles are the even integers, the sum lies
  half way between two of them and is rounded to the one whose significand is even. From
  \<open>2^54\<close> on the sum is rounded back to the number itself. (The argument is never below
  \<open>- 1\<close>.)
\<close>

definition plus_one :: "int \<Rightarrow> int" where
  "plus_one x =
     (if x < 2 ^ 53 then x + 1
      else if x < 2 ^ 54 then (if even (x div 2) then x else x + 2)
      else x)"

record EntryForm =
  f_syntax :: string
  f_category :: string
  f_description :: string
  f_example :: string
  f_displayFormat :: string
  f_language :: string

text \<open>
  \<^verbatim>\<open>handleSaveEntry\<close>: \<open>None\<close> when the form is rejected (a toast, nothing is written),
  otherwise the outcome of the create mutation. The argument \<open>es\<close> is the data that the
  entries query of the editor holds when the handler runs: \<open>None\<close> while it is undefined,
  and otherwise the list last fetched, which need not be what the store holds now.
\<close>

definition handleSaveEntry ::
  "AppContext \<Rightarrow> LocalSyntaxEntry option \<times> error option \<Rightarrow> string \<Rightarrow> timestamp \<Rightarrow> timestamp
     \<Rightarrow> string \<Rightarrow> EntryForm \<Rightarrow> LocalSyntaxEntry list option \<Rightarrow> db
     \<Rightarrow> (error + (LocalSyntaxEntry option \<times> db)) option" where
  "handleSaveEntry ctx reply generateId now1 now2 cheatsheetId form es s =
     (if trim_empty (f_syntax form) \<or> trim_empty (f_category form) then None
      else Some (useCreateEntry ctx reply generateId now1 now2
                   \<lparr>n_cheatsheet_id = cheatsheetId,
                    n_syntax = f_syntax form,
                    n_category = f_category form,
                    n_description = Some (f_description form),
                    n_example = Some (f_example form),
                    n_display_format = f_displayFormat form,
                    n_language = f_language form,
                    n_position = plus_one (maxPosition es)\<rparr> s))"

text \<open>
  \<^verbatim>\<open>handleDragEnd\<close> numbers the rearranged list by index:
  \<^verbatim>\<open>reorderedEntries.map((entry, index) => ({ id: entry.id, position: index }))\<close>.
\<close>

definition position_updates :: "LocalSyntaxEntry list \<Rightarrow> (string \<times> int) list" where
  "position_updates reorderedEntries =
     map (\<lambda>(index, entry). (e_id entry, int index)) (enumerate 0 reorderedEntries)"

section \<open>The AI generator (hooks/useAIGenerate)\<close>

record GenerateResult =
  description :: string
  example :: string
  language :: string

text \<open>
  \<^verbatim>\<open>content.match(/\{[\s\S]*\}/)\<close>: the match starts at the first opening brace and, the
  star being greedy, ends at the last closing brace behind it; there is no match when no
  closing brace follows an opening one.
\<close>

definition jsonMatch :: "string \<Rightarrow> string option" where
  "jsonMatch content =
     (case dropWhile (\<lambda>c. c \<noteq> CHR ''{'') content of
        [] \<Rightarrow> None
      | brace # rest \<Rightarrow>
          if CHR ''}'' \<in> set rest
          then Some (brace # rev (dropWhile (\<lambda>c. c \<noteq> CHR ''}'') (rev rest)))
          else None)"

text \<open>\<^verbatim>\<open>a || b\<close> on strings: \<open>a\<close> unless it is empty.\<close>

definition or_else :: "string \<Rightarrow> string \<Rightarrow> string" where
  "or_else a b = (if a = [] then b else a)"

text \<open>
  What \<^verbatim>\<open>fetch\<close> and \<^verbatim>\<open>response.json()\<close> give: the request may be rejected; a response
  has \<^verbatim>\<open>ok\<close>, \<^verbatim>\<open>status\<close> and a body; \<^verbatim>\<open>response.json()\<close> gives \<open>Inr\<close> the parsed
  body, or \<open>Inl\<close> the message of the error it throws when the body is not JSON. Of the body
  the generator reads \<^verbatim>\<open>error?.message\<close> and
  \<^verbatim>\<open>candidates?.[0]?.content?.parts?.[0]?.text\<close>, each \<open>None\<close> when undefined.
\<close>

record ResponseBody =
  error_message :: "string option"
  candidate_text :: "string option"

datatype fetch_result =
  Rejected string
| Response bool nat "string + ResponseBody"

text \<open>
  The object \<^verbatim>\<open>JSON.parse\<close> returns: the three properties read from it, \<open>None\<close> when
  undefined. \<^verbatim>\<open>JSON.parse\<close> itself is a parameter of the generator (\<open>Inl\<close> is the message
  of the SyntaxError it throws).
\<close>

record Parsed =
  parsed_description :: "string option"
  parsed_example :: "string option"
  parsed_language :: "string option"

definition opt_or :: "string option \<Rightarrow> string \<Rightarrow> string" where
  "opt_or a b = (case a of None \<Rightarrow> b | Some v \<Rightarrow> or_else v b)"

text \<open>
  \<^verbatim>\<open>generate\<close>: \<open>Inl\<close> holds the description of the toast when the result is null.
  \<open>show_status\<close> prints the status in the message \<^verbatim>\<open>API error: ${response.status}\<close>.
\<close>

definition generate ::
  "AppConfig \<Rightarrow> (string \<Rightarrow> string + Parsed) \<Rightarrow> (nat \<Rightarrow> string) \<Rightarrow> fetch_result \<Rightarrow> string
     \<Rightarrow> string + GenerateResult" where
  "generate config JSON_parse show_status response lang =
     (if \<not> hasGemini config
      then Inl ''Please add your Gemini API key in Settings to use AI features.''
      else
        (case response of
           Rejected message \<Rightarrow> Inl (or_else message ''Failed to generate content'')
         | Response ok status body \<Rightarrow>
             if \<not> ok then
               (if status = 429 then Inl ''Rate limit exceeded. Please try again later.''
                else Inl (or_else
                       (opt_or (case body of Inl _ \<Rightarrow> None | Inr errorData \<Rightarrow> error_message errorData)
                          (''API error: '' @ show_status status))
                       ''Failed to generate content''))
             else
               (case body of
                  Inl message \<Rightarrow> Inl (or_else message ''Failed to generate content'')
                | Inr data \<Rightarrow>
                    (let content = opt_or (candidate_text data) []
                     in case jsonMatch content of
                          Some m \<Rightarrow>
                            (case JSON_parse m of
                               Inl message \<Rightarrow> Inl (or_else message ''Failed to generate content'')
                             | Inr parsed \<Rightarrow>
                                 Inr \<lparr>description = opt_or (parsed_description parsed) [],
                                      example = opt_or (parsed_example parsed) [],
                                      language = opt_or (parsed_language parsed)
                                                   (or_else lang ''javascript'')\<rparr>)
                        | None \<Rightarrow>
                            Inr \<lparr>description = content,
                                 example = [],
                                 language = or_else lang ''javascript''\<rparr>))))"

section \<open>Referential integrity\<close>

text \<open>The entries whose \<^verbatim>\<open>cheatsheet_id\<close> is the id of no cheatsheet of the store.\<close>

definition orphans :: "db \<Rightarrow> LocalSyntaxEntry list" where
  "orphans s = filter (\<lambda>e. cheatsheetsDB_get (e_cheatsheet_id e) s = None) (entries s)"

section \<open>Example data\<close>

text \<open>A guest context and a small database, used to instantiate the theorems below.\<close>

definition guest_ctx :: AppContext where
  "guest_ctx = \<lparr>mode = guest, supabaseClient = False, user = False\<rparr>"

definition sheet_js :: LocalCheatsheet where
  "sheet_js = \<lparr>c_id = ''c1'', c_title = ''JS Basics'', c_description = None,
                c_created_at = 1000, c_updated_at = 1000, c_deleted_at = None\<rparr>"

definition sheet_py :: LocalCheatsheet where
  "sheet_py = \<lparr>c_id = ''c2'', c_title = ''Python'', c_description = Some ''notes'',
                c_created_at = 2000, c_updated_at = 3000, c_deleted_at = Some 3000\<rparr>"

definition entry_map :: LocalSyntaxEntry where
  "entry_map = \<lparr>e_id = ''e1'', e_cheatsheet_id = ''c1'', e_syntax = ''Array.map()'',
                 e_category = ''Arrays'', e_description = None, e_example = None,
                 e_notes = None, e_display_format = ''card'', e_language = ''javascript'',
                 e_position = 0, e_created_at = 1100, e_updated_at = 1100\<rparr>"

definition entry_filter :: LocalSyntaxEntry where
  "entry_filter = \<lparr>e_id = ''e2'', e_cheatsheet_id = ''c1'', e_syntax = ''Array.filter()'',
                    e_category = ''Arrays'', e_description = None, e_example = None,
                    e_notes = None, e_display_format = ''card'', e_language = ''javascript'',
                    e_position = 1, e_created_at = 1200, e_updated_at = 1200\<rparr>"

definition entry_len :: LocalSyntaxEntry where
  "entry_len = \<lparr>e_id = ''e3'', e_cheatsheet_id = ''c2'', e_syntax = ''len()'',
                 e_category = ''Builtins'', e_description = None, e_example = None,
                 e_notes = None, e_display_format = ''table'', e_language = ''python'',
                 e_position = 0, e_created_at = 2100, e_updated_at = 2100\<rparr>"

definition example_db :: db where
  "example_db = \<lparr>cheatsheets = [sheet_js, sheet_py],
                  entries = [entry_map, entry_filter, entry_len]\<rparr>"

definition form_reduce :: EntryForm where
  "form_reduce = \<lparr>f_syntax = ''Array.reduce()'', f_category = ''Arrays'', f_description = [],
                   f_example = [], f_displayFormat = ''card'', f_language = ''javascript''\<rparr>"

definition entry_reduce :: LocalSyntaxEntry where
  "entry_reduce = \<lparr>e_id = ''e7'', e_cheatsheet_id = ''c1'', e_syntax = ''Array.reduce()'',
                    e_category = ''Arrays'', e_description = Some [], e_example = Some [],
                    e_notes = None, e_display_format = ''card'', e_language = ''javascript'',
                    e_position = 0, e_created_at = 4000, e_updated_at = 4001\<rparr>"

lemmas example_defs =
  guest_ctx_def sheet_js_def sheet_py_def entry_map_def entry_filter_def entry_len_def
  example_db_def

section \<open>Facts about the object stores\<close>

lemma find_key_None: "find (\<lambda>x. key x = i) store = None \<longleftrightarrow> i \<notin> key ` set store"
  by (auto simp: find_None_iff)

lemma find_key_Some: "find (\<lambda>x. key x = i) store = Some x \<Longrightarrow> key x = i \<and> x \<in> set store"
  by (induction store) (auto split: if_splits)

lemma find_put_same:
  "find (\<lambda>x. key x = key item) (put key item store) = Some item"
proof (cases "\<exists>x \<in> set store. key x = key item")
  case True
  then show ?thesis
    by (induction store) (auto simp: put_def)
next
  case False
  then have "find (\<lambda>x. key x = key item) (insort_key key item store) = Some item"
    by (induction store) auto
  with False show ?thesis by (simp add: put_def)
qed

lemma cheatsheetsDB_get_put:
  "cheatsheetsDB_get (c_id x) (cheatsheetsDB_put x s) = Some x"
  by (simp add: cheatsheetsDB_get_def cheatsheetsDB_getAll_def getAll_def cheatsheetsDB_put_def
      find_put_same)

lemma cheatsheetsDB_get_None:
  "i \<notin> c_id ` set (cheatsheets s) \<Longrightarrow> cheatsheetsDB_get i s = None"
  by (simp add: cheatsheetsDB_get_def cheatsheetsDB_getAll_def getAll_def find_key_None)

text \<open>The keys of an object store stay distinct under its two writes.\<close>

lemma distinct_put:
  assumes "distinct (map key store)"
  shows "distinct (map key (put key item store))"
proof (cases "\<exists>x \<in> set store. key x = key item")
  case True
  have "map key (map (\<lambda>x. if key x = key item then item else x) store) = map key store"
    by (induction store) auto
  then have "distinct (map key (map (\<lambda>x. if key x = key item then item else x) store))"
    using assms by (simp only:)
  with True show ?thesis by (simp only: put_def if_True)
next
  case False
  then have "key item \<notin> key ` set store" by force
  with assms have "distinct (insort_key key item store)"
    and "inj_on key (set (insort_key key item store))"
    by (auto simp: distinct_map distinct_insort set_insort_key)
  with False show ?thesis by (simp add: put_def distinct_map)
qed

lemma distinct_remove:
  "distinct (map key store) \<Longrightarrow> distinct (map key (remove key i store))"
  by (simp add: remove_def distinct_map_filter)

section \<open>Mode derivation\<close>

text \<open>
  Claim C5, as the code has it. The mode is \<open>cloud\<close> exactly when the remote URL and the
  remote key are both non-null and non-empty: the condition tests the two strings for
  truthiness, and the empty string is falsy. An update that sets either credential to null,
  and \<open>clearConfig\<close>, give a configuration whose mode is \<open>guest\<close>.
\<close>

theorem mode_cloud_iff_credentials_truthy:
  "(AppProvider_mode config = cloud \<longleftrightarrow>
     (\<exists>url k. supabaseUrl config = Some url \<and> url \<noteq> []
         \<and> supabaseAnonKey config = Some k \<and> k \<noteq> []))
   \<and> (p_supabaseUrl newConfig = Some None \<or> p_supabaseAnonKey newConfig = Some None
        \<longrightarrow> AppProvider_mode (updateConfig newConfig config) = guest)
   \<and> AppProvider_mode (clearConfig config) = guest"
proof -
  have "AppProvider_mode config = cloud \<longleftrightarrow>
     (\<exists>url k. supabaseUrl config = Some url \<and> url \<noteq> []
         \<and> supabaseAnonKey config = Some k \<and> k \<noteq> [])"
    by (cases "supabaseUrl config"; cases "supabaseAnonKey config")
       (auto simp: AppProvider_mode_def)
  moreover have "p_supabaseUrl newConfig = Some None \<or> p_supabaseAnonKey newConfig = Some None
        \<longrightarrow> AppProvider_mode (updateConfig newConfig config) = guest"
    by (auto simp: AppProvider_mode_def updateConfig_def spread_def)
  moreover have "AppProvider_mode (clearConfig config) = guest"
    by (simp add: AppProvider_mode_def clearConfig_def)
  ultimately show ?thesis by blast
qed

text \<open>
  The theorem at a cloud configuration whose URL is then cleared by an update.
\<close>

theorem mode_cloud_iff_credentials_truthy_witness:
  "AppProvider_mode \<lparr>supabaseUrl = Some ''https://x.supabase.co'', supabaseAnonKey = Some ''key'',
                      geminiApiKey = None\<rparr> = cloud
   \<and> p_supabaseUrl \<lparr>p_supabaseUrl = Some None, p_supabaseAnonKey = None, p_geminiApiKey = None\<rparr>
       = Some None
   \<and> AppProvider_mode
       (updateConfig \<lparr>p_supabaseUrl = Some None, p_supabaseAnonKey = None, p_geminiApiKey = None\<rparr>
          \<lparr>supabaseUrl = Some ''https://x.supabase.co'', supabaseAnonKey = Some ''key'',
           geminiApiKey = None\<rparr>) = guest"
  using mode_cloud_iff_credentials_truthy
    [of "\<lparr>supabaseUrl = Some ''https://x.supabase.co'', supabaseAnonKey = Some ''key'',
          geminiApiKey = None\<rparr>"
        "\<lparr>p_supabaseUrl = Some None, p_supabaseAnonKey = None, p_geminiApiKey = None\<rparr>"]
  by simp

text \<open>
  Claim C5 as stated fails: with the empty string as URL both credentials are non-null, and
  the mode is \<open>guest\<close>.
\<close>

theorem mode_guest_with_non_null_credentials:
  "supabaseUrl \<lparr>supabaseUrl = Some [], supabaseAnonKey = Some ''key'', geminiApiKey = None\<rparr>
     \<noteq> None
   \<and> supabaseAnonKey \<lparr>supabaseUrl = Some [], supabaseAnonKey = Some ''key'', geminiApiKey = None\<rparr>
     \<noteq> None
   \<and> AppProvider_mode \<lparr>supabaseUrl = Some [], supabaseAnonKey = Some ''key'', geminiApiKey = None\<rparr>
     = guest"
  by (simp add: AppProvider_mode_def)

section \<open>Soft delete and restore\<close>

text \<open>
  Claim C10. In guest mode, soft-deleting or restoring an id that no record of the local
  store has returns without an error and leaves the database as it was.
\<close>

theorem soft_delete_restore_absent_id:
  assumes "\<not> (mode ctx = cloud \<and> supabaseClient ctx)"
    and "i \<notin> c_id ` set (cheatsheets s)"
  shows "useSoftDeleteCheatsheet ctx reply now i s = Inr s
       \<and> useRestoreCheatsheet ctx reply' i s = Inr s"
proof -
  from assms(2) have "cheatsheetsDB_get i s = None"
    by (rule cheatsheetsDB_get_None)
  with assms(1) show ?thesis
    by (auto simp: useSoftDeleteCheatsheet_def useRestoreCheatsheet_def)
qed

theorem soft_delete_restore_absent_id_witness:
  "\<not> (mode guest_ctx = cloud \<and> supabaseClient guest_ctx)
   \<and> ''c9'' \<notin> c_id ` set (cheatsheets example_db)
   \<and> useSoftDeleteCheatsheet guest_ctx None 5000 ''c9'' example_db = Inr example_db
   \<and> useRestoreCheatsheet guest_ctx None ''c9'' example_db = Inr example_db"
proof -
  have h1: "\<not> (mode guest_ctx = cloud \<and> supabaseClient guest_ctx)"
    by (simp add: guest_ctx_def)
  have h2: "''c9'' \<notin> c_id ` set (cheatsheets example_db)"
    by (simp add: example_defs)
  show ?thesis
    using h1 h2 soft_delete_restore_absent_id [OF h1 h2, of None 5000 None] by simp
qed

text \<open>
  Claim C6. In guest mode, for a cheatsheet \<open>x\<close> that the store returns for its id, a soft
  delete followed by a restore both succeed, and the record then read for the id is \<open>x\<close>
  with \<open>deleted_at\<close> null: id, title, description and \<open>created_at\<close> (and \<open>updated_at\<close>) are
  those of \<open>x\<close>. The entries are untouched.
\<close>

theorem soft_delete_then_restore:
  assumes guest: "\<not> (mode ctx = cloud \<and> supabaseClient ctx)"
    and stored: "cheatsheetsDB_get (c_id x) s = Some x"
  shows "\<exists>s1 s2. useSoftDeleteCheatsheet ctx reply now (c_id x) s = Inr s1
           \<and> useRestoreCheatsheet ctx reply' (c_id x) s1 = Inr s2
           \<and> cheatsheetsDB_get (c_id x) s2 = Some (x\<lparr>c_deleted_at := None\<rparr>)
           \<and> entries s2 = entries s"
proof -
  let ?x1 = "x\<lparr>c_deleted_at := Some now\<rparr>"
  let ?s1 = "cheatsheetsDB_put ?x1 s"
  let ?x2 = "x\<lparr>c_deleted_at := None\<rparr>"
  let ?s2 = "cheatsheetsDB_put ?x2 ?s1"
  have del: "useSoftDeleteCheatsheet ctx reply now (c_id x) s = Inr ?s1"
    using guest stored by (auto simp: useSoftDeleteCheatsheet_def)
  have "cheatsheetsDB_get (c_id ?x1) ?s1 = Some ?x1"
    by (rule cheatsheetsDB_get_put)
  then have get1: "cheatsheetsDB_get (c_id x) ?s1 = Some ?x1" by simp
  have res: "useRestoreCheatsheet ctx reply' (c_id x) ?s1 = Inr ?s2"
    using guest get1 by (auto simp: useRestoreCheatsheet_def)
  have "cheatsheetsDB_get (c_id ?x2) ?s2 = Some ?x2"
    by (rule cheatsheetsDB_get_put)
  then have get2: "cheatsheetsDB_get (c_id x) ?s2 = Some ?x2" by simp
  have "entries ?s2 = entries s" by (simp add: cheatsheetsDB_put_def)
  with del res get2 show ?thesis by blast
qed

theorem soft_delete_then_restore_witness:
  "\<not> (mode guest_ctx = cloud \<and> supabaseClient guest_ctx)
   \<and> cheatsheetsDB_get (c_id sheet_py) example_db = Some sheet_py
   \<and> (\<exists>s1 s2. useSoftDeleteCheatsheet guest_ctx None 5000 (c_id sheet_py) example_db = Inr s1
           \<and> useRestoreCheatsheet guest_ctx None (c_id sheet_py) s1 = Inr s2
           \<and> cheatsheetsDB_get (c_id sheet_py) s2 = Some (sheet_py\<lparr>c_deleted_at := None\<rparr>)
           \<and> entries s2 = entries example_db)"
proof -
  have h1: "\<not> (mode guest_ctx = cloud \<and> supabaseClient guest_ctx)"
    by (simp add: guest_ctx_def)
  have h2: "cheatsheetsDB_get (c_id sheet_py) example_db = Some sheet_py"
    by (simp add: example_defs cheatsheetsDB_get_def cheatsheetsDB_getAll_def getAll_def)
  show ?thesis
    using h1 h2 soft_delete_then_restore [OF h1 h2, of None 5000 None] by simp
qed

section \<open>The two views\<close>

text \<open>
  Claim C7. In guest mode both views are returned, and a cheatsheet of the store is in the
  active view exactly when its \<open>deleted_at\<close> is null and in the trash view exactly when it
  is not: it is in one view and not in the other. The two views together hold the
  cheatsheets of the store and nothing else.
\<close>

theorem cheatsheet_in_exactly_one_view:
  assumes guest: "\<not> (mode ctx = cloud \<and> supabaseClient ctx \<and> user ctx)"
    and stored: "c \<in> set (cheatsheets s)"
  shows "\<exists>a t. useCheatsheets ctx reply active s = Inr a
           \<and> useCheatsheets ctx reply' trash s = Inr t
           \<and> (c \<in> set a \<longleftrightarrow> c_deleted_at c = None)
           \<and> (c \<in> set t \<longleftrightarrow> c_deleted_at c \<noteq> None)
           \<and> (c \<in> set a \<longleftrightarrow> c \<notin> set t)
           \<and> set a \<union> set t = set (cheatsheets s) \<and> set a \<inter> set t = {}"
  using assms
  by (auto simp: useCheatsheets_def cheatsheetsDB_getAll_def getAll_def Let_def)

theorem cheatsheet_in_exactly_one_view_witness:
  "\<not> (mode guest_ctx = cloud \<and> supabaseClient guest_ctx \<and> user guest_ctx)
   \<and> sheet_py \<in> set (cheatsheets example_db)
   \<and> useCheatsheets guest_ctx (None, None) active example_db = Inr [sheet_js]
   \<and> useCheatsheets guest_ctx (None, None) trash example_db = Inr [sheet_py]
   \<and> c_deleted_at sheet_py \<noteq> None"
proof -
  have h1: "\<not> (mode guest_ctx = cloud \<and> supabaseClient guest_ctx \<and> user guest_ctx)"
    by (simp add: guest_ctx_def)
  have h2: "sheet_py \<in> set (cheatsheets example_db)"
    by (simp add: example_defs)
  have a: "useCheatsheets guest_ctx (None, None) active example_db = Inr [sheet_js]"
    by (simp add: example_defs useCheatsheets_def cheatsheetsDB_getAll_def getAll_def)
  have t: "useCheatsheets guest_ctx (None, None) trash example_db = Inr [sheet_py]"
    by (simp add: example_defs useCheatsheets_def cheatsheetsDB_getAll_def getAll_def)
  from cheatsheet_in_exactly_one_view [OF h1 h2, of "(None, None)" "(None, None)"]
  have "c_deleted_at sheet_py \<noteq> None"
    unfolding a t by (simp add: example_defs)
  with h1 h2 a t show ?thesis by simp
qed

section \<open>Permanent delete\<close>

lemma entries_foldl_delete:
  "entries (foldl (\<lambda>s' entry. entriesDB_delete (e_id entry) s') s xs)
     = filter (\<lambda>e. e_id e \<notin> e_id ` set xs) (entries s)"
proof (induction xs arbitrary: s)
  case Nil
  then show ?case by simp
next
  case (Cons x xs)
  then show ?case
    by (simp add: entriesDB_delete_def remove_def conj_commute)
qed

lemma cheatsheets_foldl_delete:
  "cheatsheets (foldl (\<lambda>s' entry. entriesDB_delete (e_id entry) s') s xs) = cheatsheets s"
  by (induction xs arbitrary: s) (simp_all add: entriesDB_delete_def)

lemma last_delete_steps:
  "last (s # delete_steps xs s) = foldl (\<lambda>s' entry. entriesDB_delete (e_id entry) s') s xs"
  by (induction xs arbitrary: s) simp_all

lemma delete_steps_frame:
  "t \<in> set (delete_steps xs s) \<Longrightarrow>
     cheatsheets t = cheatsheets s \<and> set (entries t) \<subseteq> set (entries s)"
proof (induction xs arbitrary: s)
  case Nil
  then show ?case by simp
next
  case (Cons x xs)
  let ?s1 = "entriesDB_delete (e_id x) s"
  have s1: "cheatsheets ?s1 = cheatsheets s" "set (entries ?s1) \<subseteq> set (entries s)"
    by (auto simp: entriesDB_delete_def remove_def)
  from Cons.prems have "t = ?s1 \<or> t \<in> set (delete_steps xs ?s1)" by simp
  then show ?case
  proof
    assume "t = ?s1"
    with s1 show ?thesis by simp
  next
    assume "t \<in> set (delete_steps xs ?s1)"
    from Cons.IH [OF this] s1 show ?thesis by auto
  qed
qed

lemma deleteByCheatsheetId_last:
  "entriesDB_deleteByCheatsheetId i s = last (s # deleteByCheatsheetId_steps i s)"
  by (simp add: entriesDB_deleteByCheatsheetId_def deleteByCheatsheetId_steps_def
      last_delete_steps Let_def del: last.simps)

lemma entries_deleteByCheatsheetId:
  "e \<in> set (entries (entriesDB_deleteByCheatsheetId i s)) \<Longrightarrow>
     e \<in> set (entries s) \<and> e_cheatsheet_id e \<noteq> i"
  by (auto simp: entriesDB_deleteByCheatsheetId_def entries_foldl_delete entriesDB_getAll_def
      getAll_def Let_def)

lemma purge_final_entries:
  "entriesDB_getByCheatsheetId i (cheatsheetsDB_delete i (entriesDB_deleteByCheatsheetId i s)) = []"
proof -
  have "\<forall>e \<in> set (entries (entriesDB_deleteByCheatsheetId i s)). e_cheatsheet_id e \<noteq> i"
    using entries_deleteByCheatsheetId by blast
  then show ?thesis
    by (simp add: entriesDB_getByCheatsheetId_def entriesDB_getAll_def getAll_def
        cheatsheetsDB_delete_def filter_empty_conv)
qed

lemma purge_final_cheatsheet:
  "cheatsheetsDB_get i (cheatsheetsDB_delete i s) = None"
  by (simp add: cheatsheetsDB_get_def cheatsheetsDB_getAll_def getAll_def
      cheatsheetsDB_delete_def remove_def find_None_iff)

lemma purge_steps_cases:
  assumes "t \<in> set (purge_steps i s)"
  shows "(cheatsheets t = cheatsheets s \<and> set (entries t) \<subseteq> set (entries s))
       \<or> t = cheatsheetsDB_delete i (entriesDB_deleteByCheatsheetId i s)"
proof -
  from assms have "t \<in> set (deleteByCheatsheetId_steps i s)
      \<or> t = cheatsheetsDB_delete i (last (s # deleteByCheatsheetId_steps i s))"
    by (auto simp: purge_steps_def Let_def simp del: last.simps)
  then show ?thesis
    by (auto simp: deleteByCheatsheetId_last deleteByCheatsheetId_steps_def
        dest: delete_steps_frame simp del: last.simps)
qed

lemma purge_steps_parent:
  assumes "t \<in> set (purge_steps i s)" and "e \<in> set (entries t)" and "e_cheatsheet_id e = i"
  shows "cheatsheets t = cheatsheets s"
  using purge_steps_cases [OF assms(1)]
proof
  assume "cheatsheets t = cheatsheets s \<and> set (entries t) \<subseteq> set (entries s)"
  then show ?thesis by simp
next
  assume "t = cheatsheetsDB_delete i (entriesDB_deleteByCheatsheetId i s)"
  with assms(2) have "e \<in> set (entries (entriesDB_deleteByCheatsheetId i s))"
    by (simp add: cheatsheetsDB_delete_def)
  with assms(3) show ?thesis
    using entries_deleteByCheatsheetId by blast
qed

lemma purge_steps_orphans:
  assumes "t \<in> set (purge_steps i s)"
  shows "set (orphans t) \<subseteq> set (orphans s)"
  using purge_steps_cases [OF assms]
proof
  assume "cheatsheets t = cheatsheets s \<and> set (entries t) \<subseteq> set (entries s)"
  then show ?thesis
    by (auto simp: orphans_def cheatsheetsDB_get_def cheatsheetsDB_getAll_def)
next
  assume t: "t = cheatsheetsDB_delete i (entriesDB_deleteByCheatsheetId i s)"
  show ?thesis
  proof
    fix e assume "e \<in> set (orphans t)"
    then have e: "e \<in> set (entries (entriesDB_deleteByCheatsheetId i s))"
      and none: "cheatsheetsDB_get (e_cheatsheet_id e) t = None"
      by (auto simp: orphans_def t cheatsheetsDB_delete_def)
    from e have in_s: "e \<in> set (entries s)" and other: "e_cheatsheet_id e \<noteq> i"
      using entries_deleteByCheatsheetId by blast+
    have "cheatsheets t = remove c_id i (cheatsheets s)"
      by (simp add: t cheatsheetsDB_delete_def entriesDB_deleteByCheatsheetId_def
          cheatsheets_foldl_delete Let_def)
    with none other have "cheatsheetsDB_get (e_cheatsheet_id e) s = None"
      by (auto simp: cheatsheetsDB_get_def cheatsheetsDB_getAll_def getAll_def remove_def
          find_None_iff)
    with in_s show "e \<in> set (orphans s)"
      by (simp add: orphans_def)
  qed
qed

text \<open>
  Claim C3. In guest mode the permanent delete of \<open>i\<close> succeeds; in the database it leaves,
  the entry list of \<open>i\<close> is empty and no cheatsheet is found for \<open>i\<close>. The database it
  leaves is the last of \<open>purge_steps\<close>, the databases after each write. In each of them, as
  long as an entry owned by \<open>i\<close> is left the cheatsheet store is the one before the purge,
  and every entry without a parent cheatsheet was without one before the purge: stopping
  after any write orphans no entry.
\<close>

theorem purge_cascade:
  assumes guest: "\<not> (mode ctx = cloud \<and> supabaseClient ctx)"
  shows "\<exists>s'. usePermanentDeleteCheatsheet ctx reply1 reply2 i s = Inr s'
          \<and> s' = last (purge_steps i s)
          \<and> useSyntaxEntries ctx q i s' = Inr []
          \<and> useCheatsheet ctx q' i s' = Inr None
          \<and> (\<forall>t \<in> set (purge_steps i s).
                ((\<exists>e \<in> set (entries t). e_cheatsheet_id e = i) \<longrightarrow> cheatsheets t = cheatsheets s)
                \<and> set (orphans t) \<subseteq> set (orphans s))"
proof -
  let ?s' = "cheatsheetsDB_delete i (entriesDB_deleteByCheatsheetId i s)"
  have "usePermanentDeleteCheatsheet ctx reply1 reply2 i s = Inr ?s'"
    using guest by (auto simp: usePermanentDeleteCheatsheet_def)
  moreover have "?s' = last (purge_steps i s)"
    by (simp add: purge_steps_def Let_def deleteByCheatsheetId_last del: last.simps)
  moreover have "useSyntaxEntries ctx q i ?s' = Inr []"
    using guest by (auto simp: useSyntaxEntries_def purge_final_entries)
  moreover have "useCheatsheet ctx q' i ?s' = Inr None"
    using guest by (auto simp: useCheatsheet_def purge_final_cheatsheet)
  moreover have "\<forall>t \<in> set (purge_steps i s).
                ((\<exists>e \<in> set (entries t). e_cheatsheet_id e = i) \<longrightarrow> cheatsheets t = cheatsheets s)
                \<and> set (orphans t) \<subseteq> set (orphans s)"
    using purge_steps_parent purge_steps_orphans by blast
  ultimately show ?thesis by blast
qed

theorem purge_cascade_witness:
  "\<not> (mode guest_ctx = cloud \<and> supabaseClient guest_ctx)
   \<and> usePermanentDeleteCheatsheet guest_ctx None None ''c1'' example_db
       = Inr \<lparr>cheatsheets = [sheet_py], entries = [entry_len]\<rparr>
   \<and> purge_steps ''c1'' example_db
       = [\<lparr>cheatsheets = [sheet_js, sheet_py], entries = [entry_filter, entry_len]\<rparr>,
          \<lparr>cheatsheets = [sheet_js, sheet_py], entries = [entry_len]\<rparr>,
          \<lparr>cheatsheets = [sheet_py], entries = [entry_len]\<rparr>]
   \<and> useSyntaxEntries guest_ctx (None, None) ''c1''
         \<lparr>cheatsheets = [sheet_py], entries = [entry_len]\<rparr> = Inr []
   \<and> useCheatsheet guest_ctx (None, None) ''c1''
         \<lparr>cheatsheets = [sheet_py], entries = [entry_len]\<rparr> = Inr None
   \<and> orphans \<lparr>cheatsheets = [sheet_js, sheet_py], entries = [entry_filter, entry_len]\<rparr> = []"
proof -
  have h1: "\<not> (mode guest_ctx = cloud \<and> supabaseClient guest_ctx)"
    by (simp add: guest_ctx_def)
  have steps: "purge_steps ''c1'' example_db
       = [\<lparr>cheatsheets = [sheet_js, sheet_py], entries = [entry_filter, entry_len]\<rparr>,
          \<lparr>cheatsheets = [sheet_js, sheet_py], entries = [entry_len]\<rparr>,
          \<lparr>cheatsheets = [sheet_py], entries = [entry_len]\<rparr>]"
    by (simp add: example_defs purge_steps_def deleteByCheatsheetId_steps_def
        entriesDB_getAll_def getAll_def entriesDB_delete_def cheatsheetsDB_delete_def remove_def)
  have before: "orphans example_db = []"
    by (simp add: example_defs orphans_def cheatsheetsDB_get_def cheatsheetsDB_getAll_def
        getAll_def)
  from purge_cascade [OF h1, of None None "''c1''" example_db "(None, None)" "(None, None)"]
  have run: "usePermanentDeleteCheatsheet guest_ctx None None ''c1'' example_db
       = Inr \<lparr>cheatsheets = [sheet_py], entries = [entry_len]\<rparr>"
    and entries_gone: "useSyntaxEntries guest_ctx (None, None) ''c1''
         \<lparr>cheatsheets = [sheet_py], entries = [entry_len]\<rparr> = Inr []"
    and sheet_gone: "useCheatsheet guest_ctx (None, None) ''c1''
         \<lparr>cheatsheets = [sheet_py], entries = [entry_len]\<rparr> = Inr None"
    and no_orphan: "orphans \<lparr>cheatsheets = [sheet_js, sheet_py],
         entries = [entry_filter, entry_len]\<rparr> = []"
    unfolding steps before by auto
  from h1 run steps entries_gone sheet_gone no_orphan show ?thesis by (intro conjI)
qed

section \<open>The \<open>updated_at\<close> timestamp\<close>

text \<open>
  Claim C4, evaluated on the guest branch. A soft delete at time 5000 of the cheatsheet
  \<open>c1\<close>, last updated at 1000, stores the deletion time and leaves \<open>updated_at\<close> at 1000;
  restoring \<open>c2\<close>, last updated at 3000, leaves its \<open>updated_at\<close> at 3000; reordering the
  entries \<open>e1\<close> and \<open>e2\<close> changes their positions and leaves their \<open>updated_at\<close> at 1100
  and 1200.
\<close>

theorem guest_mutations_keep_updated_at:
  "(case useSoftDeleteCheatsheet guest_ctx None 5000 ''c1'' example_db of
      Inl e \<Rightarrow> None
    | Inr s' \<Rightarrow> map_option (\<lambda>c. (c_deleted_at c, c_updated_at c)) (cheatsheetsDB_get ''c1'' s'))
     = Some (Some 5000, 1000)
   \<and> (case useRestoreCheatsheet guest_ctx None ''c2'' example_db of
      Inl e \<Rightarrow> None
    | Inr s' \<Rightarrow> map_option (\<lambda>c. (c_deleted_at c, c_updated_at c)) (cheatsheetsDB_get ''c2'' s'))
     = Some (None, 3000)
   \<and> (case useReorderEntries guest_ctx (\<lambda>k. None) ''c1'' [(''e2'', 0), (''e1'', 1)] example_db of
      Inl e \<Rightarrow> []
    | Inr s' \<Rightarrow> map (\<lambda>e. (e_id e, e_position e, e_updated_at e)) (entries s'))
     = [(''e1'', 1, 1100), (''e2'', 0, 1200), (''e3'', 0, 2100)]"
  by (simp add: example_defs useSoftDeleteCheatsheet_def useRestoreCheatsheet_def
      useReorderEntries_def cheatsheetsDB_get_def cheatsheetsDB_getAll_def getAll_def
      cheatsheetsDB_put_def put_def entriesDB_getAll_def entriesDB_put_def positionMap_def)

section \<open>The fallback of the generator\<close>

lemma jsonMatch_None_iff:
  "jsonMatch content = None \<longleftrightarrow> \<not> (\<exists>a b c. content = a @ CHR ''{'' # b @ CHR ''}'' # c)"
proof
  assume none: "jsonMatch content = None"
  show "\<not> (\<exists>a b c. content = a @ CHR ''{'' # b @ CHR ''}'' # c)"
  proof
    assume "\<exists>a b c. content = a @ CHR ''{'' # b @ CHR ''}'' # c"
    then obtain a b c where content: "content = a @ CHR ''{'' # b @ CHR ''}'' # c" by blast
    let ?P = "\<lambda>ch. ch \<noteq> CHR ''{''"
    have "\<exists>rest. dropWhile ?P content = CHR ''{'' # rest \<and> CHR ''}'' \<in> set rest"
    proof (cases "CHR ''{'' \<in> set a")
      case True
      then have "dropWhile ?P a \<noteq> []" by (simp add: dropWhile_eq_Nil_conv)
      then obtain x rest where a: "dropWhile ?P a = x # rest"
        by (cases "dropWhile ?P a") auto
      then have "x = CHR ''{''" using hd_dropWhile [of ?P a] by auto
      moreover from True have "dropWhile ?P content = dropWhile ?P a @ CHR ''{'' # b @ CHR ''}'' # c"
        unfolding content by (intro dropWhile_append1) auto
      ultimately show ?thesis using a by auto
    next
      case False
      then have "dropWhile ?P content = dropWhile ?P (CHR ''{'' # b @ CHR ''}'' # c)"
        unfolding content by (intro dropWhile_append2) auto
      then show ?thesis by simp
    qed
    with none show False by (auto simp: jsonMatch_def)
  qed
next
  assume no_block: "\<not> (\<exists>a b c. content = a @ CHR ''{'' # b @ CHR ''}'' # c)"
  show "jsonMatch content = None"
  proof (rule ccontr)
    assume "jsonMatch content \<noteq> None"
    then obtain brace rest where dw: "dropWhile (\<lambda>ch. ch \<noteq> CHR ''{'') content = brace # rest"
      and close: "CHR ''}'' \<in> set rest"
      by (auto simp: jsonMatch_def split: list.splits if_splits)
    from dw have "brace = CHR ''{''"
      using hd_dropWhile [of "\<lambda>ch. ch \<noteq> CHR ''{''" content] by auto
    moreover from close obtain b c where "rest = b @ CHR ''}'' # c"
      by (auto dest: split_list)
    moreover have "content = takeWhile (\<lambda>ch. ch \<noteq> CHR ''{'') content @ dropWhile (\<lambda>ch. ch \<noteq> CHR ''{'') content"
      by simp
    ultimately have "content = takeWhile (\<lambda>ch. ch \<noteq> CHR ''{'') content @ CHR ''{'' # b @ CHR ''}'' # c"
      using dw by simp
    with no_block show False by blast
  qed
qed

text \<open>
  Claim C9. With an AI key configured, a response that is ok and whose text holds no opening
  brace followed, anywhere behind it, by a closing brace gives a result: its description is
  the whole text, its example is empty and its language is the language passed in, or
  \<open>javascript\<close> when that is the empty string.
\<close>

theorem generate_fallback:
  assumes key: "hasGemini config"
    and cand: "candidate_text data = Some content"
    and no_block: "\<not> (\<exists>a b c. content = a @ CHR ''{'' # b @ CHR ''}'' # c)"
  shows "generate config JSON_parse show_status (Response True status (Inr data)) lang
           = Inr \<lparr>description = content, example = [],
                  language = (if lang = [] then ''javascript'' else lang)\<rparr>"
proof -
  have content: "opt_or (candidate_text data) [] = content"
    by (simp add: cand opt_or_def or_else_def)
  from no_block have "jsonMatch content = None"
    by (simp add: jsonMatch_None_iff)
  with key content show ?thesis
    by (simp add: generate_def or_else_def)
qed

theorem generate_fallback_witness:
  "hasGemini \<lparr>supabaseUrl = None, supabaseAnonKey = None, geminiApiKey = Some ''k''\<rparr>
   \<and> candidate_text \<lparr>error_message = None, candidate_text = Some ''} maps a list {''\<rparr>
       = Some ''} maps a list {''
   \<and> \<not> (\<exists>a b c. ''} maps a list {'' = a @ CHR ''{'' # b @ CHR ''}'' # c)
   \<and> generate \<lparr>supabaseUrl = None, supabaseAnonKey = None, geminiApiKey = Some ''k''\<rparr>
        (\<lambda>m. Inl ''unused'') (\<lambda>n. ''200'')
        (Response True 200 (Inr \<lparr>error_message = None, candidate_text = Some ''} maps a list {''\<rparr>))
        []
       = Inr \<lparr>description = ''} maps a list {'', example = [], language = ''javascript''\<rparr>"
proof -
  have h1: "hasGemini \<lparr>supabaseUrl = None, supabaseAnonKey = None, geminiApiKey = Some ''k''\<rparr>"
    by (simp add: hasGemini_def)
  have h2: "candidate_text \<lparr>error_message = None, candidate_text = Some ''} maps a list {''\<rparr>
       = Some ''} maps a list {''"
    by simp
  have "jsonMatch ''} maps a list {'' = None"
    by (simp add: jsonMatch_def)
  then have h3: "\<not> (\<exists>a b c. ''} maps a list {'' = a @ CHR ''{'' # b @ CHR ''}'' # c)"
    using jsonMatch_None_iff by blast
  have r: "generate \<lparr>supabaseUrl = None, supabaseAnonKey = None, geminiApiKey = Some ''k''\<rparr>
        (\<lambda>m. Inl ''unused'') (\<lambda>n. ''200'')
        (Response True 200 (Inr \<lparr>error_message = None, candidate_text = Some ''} maps a list {''\<rparr>))
        []
       = Inr \<lparr>description = ''} maps a list {'', example = [], language = ''javascript''\<rparr>"
    using generate_fallback [OF h1 h2 h3, of "\<lambda>m. Inl ''unused''" "\<lambda>n. ''200''" 200 "[]"]
    by simp
  from h1 h2 h3 r show ?thesis by (intro conjI)
qed


section \<open>Reordering\<close>

lemma positionMap_foldl:
  "foldl (\<lambda>m (i, p). m(i \<mapsto> p)) m0 updates = m0 ++ map_of (rev updates)"
proof (induction updates arbitrary: m0)
  case Nil
  then show ?case by simp
next
  case (Cons u us)
  obtain i p where u: "u = (i, p)" by (cases u)
  have "foldl (\<lambda>m (i, p). m(i \<mapsto> p)) m0 (u # us)
          = foldl (\<lambda>m (i, p). m(i \<mapsto> p)) (m0(i \<mapsto> p)) us"
    by (simp only: foldl_Cons u case_prod_conv)
  also have "\<dots> = m0(i \<mapsto> p) ++ map_of (rev us)"
    by (rule Cons.IH)
  also have "m0(i \<mapsto> p) = m0 ++ map_of [(i, p)]"
    by simp
  also have "(m0 ++ map_of [(i, p)]) ++ map_of (rev us) = m0 ++ map_of (rev (u # us))"
    by (simp only: u rev.simps map_of_append map_add_assoc)
  finally show ?case .
qed

lemma positionMap_map_of: "positionMap updates = map_of (rev updates)"
  by (simp add: positionMap_def positionMap_foldl)

lemma put_in_place:
  assumes "distinct (map key (xs @ y # ys))" and "key item = key y"
  shows "put key item (xs @ y # ys) = xs @ item # ys"
proof -
  from assms(1) have "key y \<notin> key ` set xs" and "key y \<notin> key ` set ys"
    by auto
  then have "\<forall>x \<in> set xs. key x \<noteq> key item" and "\<forall>x \<in> set ys. key x \<noteq> key item"
    unfolding assms(2) by (metis image_eqI)+
  then have "map (\<lambda>x. if key x = key item then item else x) xs = xs"
    and "map (\<lambda>x. if key x = key item then item else x) ys = ys"
    by (simp_all add: map_idI)
  with assms(2) show ?thesis by (simp add: put_def)
qed

lemma with_position_id [simp]: "e_id (with_position m e) = e_id e"
  by (simp add: with_position_def split: option.splits)

lemma with_position_cheatsheet_id [simp]:
  "e_cheatsheet_id (with_position m e) = e_cheatsheet_id e"
  by (simp add: with_position_def split: option.splits)

lemma reorder_loop:
  assumes "distinct (map e_id (xs @ ys))"
  shows "foldl (\<lambda>s' entry. case m (e_id entry) of
                    Some p \<Rightarrow> entriesDB_put (entry\<lparr>e_position := p\<rparr>) s'
                  | None \<Rightarrow> s')
           (s\<lparr>entries := map (with_position m) xs @ ys\<rparr>) ys
         = s\<lparr>entries := map (with_position m) (xs @ ys)\<rparr>"
  using assms
proof (induction ys arbitrary: xs)
  case Nil
  then show ?case by simp
next
  case (Cons y ys)
  let ?step = "\<lambda>s' entry. case m (e_id entry) of
                    Some p \<Rightarrow> entriesDB_put (entry\<lparr>e_position := p\<rparr>) s'
                  | None \<Rightarrow> s'"
  have d: "distinct (map e_id (map (with_position m) xs @ y # ys))"
    using Cons.prems by (simp add: comp_def)
  have "?step (s\<lparr>entries := map (with_position m) xs @ y # ys\<rparr>) y
          = s\<lparr>entries := map (with_position m) xs @ with_position m y # ys\<rparr>"
  proof (cases "m (e_id y)")
    case None
    then show ?thesis by (simp add: with_position_def)
  next
    case (Some p)
    have "put e_id (y\<lparr>e_position := p\<rparr>) (map (with_position m) xs @ y # ys)
            = map (with_position m) xs @ y\<lparr>e_position := p\<rparr> # ys"
      by (rule put_in_place [OF d]) simp
    with Some show ?thesis by (simp add: with_position_def entriesDB_put_def)
  qed
  moreover have "distinct (map e_id ((xs @ [y]) @ ys))"
    using Cons.prems by simp
  from Cons.IH [OF this]
  have "foldl ?step (s\<lparr>entries := map (with_position m) xs @ with_position m y # ys\<rparr>) ys
          = s\<lparr>entries := map (with_position m) (xs @ y # ys)\<rparr>"
    by simp
  ultimately show ?case by simp
qed

lemma reorder_guest:
  assumes guest: "\<not> (mode ctx = cloud \<and> supabaseClient ctx)"
    and keys: "distinct (map e_id (entries s))"
  shows "useReorderEntries ctx replies c updates s
           = Inr (s\<lparr>entries := map (with_position (map_of (rev updates))) (entries s)\<rparr>)"
proof -
  have "s\<lparr>entries := map (with_position (map_of (rev updates))) [] @ entries s\<rparr> = s"
    by simp
  with reorder_loop [of "[]" "entries s" "map_of (rev updates)" s] keys
  show ?thesis
    using guest
    by (auto simp: useReorderEntries_def positionMap_map_of entriesDB_getAll_def getAll_def)
qed

text \<open>
  Claim C8. In guest mode, on a store whose ids are distinct, the reorder succeeds and leaves
  the cheatsheets alone. Each entry of the store stays at its place: an entry whose id is not
  in the assignments is unchanged, and an entry whose id is in the assignments is the same
  record with the position of the last assignment for its id, all other fields as before.
\<close>

theorem reorder_frame:
  assumes guest: "\<not> (mode ctx = cloud \<and> supabaseClient ctx)"
    and keys: "distinct (map e_id (entries s))"
  shows "\<exists>s'. useReorderEntries ctx replies c updates s = Inr s'
           \<and> cheatsheets s' = cheatsheets s
           \<and> entries s' =
               map (\<lambda>e. case map_of (rev updates) (e_id e) of
                          None \<Rightarrow> e
                        | Some p \<Rightarrow> e\<lparr>e_position := p\<rparr>) (entries s)"
  using reorder_guest [OF assms, of replies c updates]
  by (simp add: with_position_def [abs_def])

theorem reorder_frame_witness:
  "\<not> (mode guest_ctx = cloud \<and> supabaseClient guest_ctx)
   \<and> distinct (map e_id (entries example_db))
   \<and> useReorderEntries guest_ctx (\<lambda>k. None) ''c1'' [(''e2'', 0), (''e9'', 7), (''e1'', 1)] example_db
       = Inr \<lparr>cheatsheets = [sheet_js, sheet_py],
              entries = [entry_map\<lparr>e_position := 1\<rparr>, entry_filter\<lparr>e_position := 0\<rparr>, entry_len]\<rparr>"
proof -
  have h1: "\<not> (mode guest_ctx = cloud \<and> supabaseClient guest_ctx)"
    by (simp add: guest_ctx_def)
  have h2: "distinct (map e_id (entries example_db))"
    by (simp add: example_defs)
  from reorder_frame [OF h1 h2, of "\<lambda>k. None" "''c1''" "[(''e2'', 0), (''e9'', 7), (''e1'', 1)]"]
  have "useReorderEntries guest_ctx (\<lambda>k. None) ''c1'' [(''e2'', 0), (''e9'', 7), (''e1'', 1)] example_db
       = Inr \<lparr>cheatsheets = [sheet_js, sheet_py],
              entries = [entry_map\<lparr>e_position := 1\<rparr>, entry_filter\<lparr>e_position := 0\<rparr>, entry_len]\<rparr>"
    by (auto simp: example_defs)
  with h1 h2 show ?thesis by (intro conjI)
qed

text \<open>
  The assignments that \<^verbatim>\<open>handleDragEnd\<close> submits for a rearrangement of entries with
  distinct ids: one pair for each entry, the positions \<open>0\<close> to \<open>n - 1\<close> in the order of the
  list.
\<close>

lemma fst_enumerate_updates:
  "map fst (map (\<lambda>(index, entry). (e_id entry, int index)) (enumerate n xs)) = map e_id xs"
  by (induction xs arbitrary: n) simp_all

lemma snd_enumerate_updates:
  "map snd (map (\<lambda>(index, entry). (e_id entry, int index))
              (enumerate n (xs :: LocalSyntaxEntry list)))
     = map int [n..<n + length xs]"
proof -
  have "map snd (map (\<lambda>(index, entry). (e_id entry, int index)) ys) = map int (map fst ys)"
    for ys :: "(nat \<times> LocalSyntaxEntry) list"
    by (induction ys) auto
  from this [of "enumerate n xs"] show ?thesis
    by (simp only: map_fst_enumerate)
qed

lemma fst_position_updates: "map fst (position_updates xs) = map e_id xs"
  by (simp only: position_updates_def fst_enumerate_updates)

lemma snd_position_updates: "map snd (position_updates xs) = map int [0..<length xs]"
  using snd_enumerate_updates [of 0 xs] by (simp only: position_updates_def add_0)

lemma position_updates_dense:
  assumes "distinct (map e_id xs)"
  shows "distinct (map fst (position_updates xs))"
    and "fst ` set (position_updates xs) = e_id ` set xs"
    and "snd ` set (position_updates xs) = int ` {0..<length xs}"
    and "sort_key snd (position_updates xs) = position_updates xs"
proof -
  show "distinct (map fst (position_updates xs))"
    using assms by (simp only: fst_position_updates)
  have "set (map fst (position_updates xs)) = set (map e_id xs)"
    by (simp only: fst_position_updates)
  then show "fst ` set (position_updates xs) = e_id ` set xs"
    by simp
  have "set (map snd (position_updates xs)) = set (map int [0..<length xs])"
    by (simp only: snd_position_updates)
  then show "snd ` set (position_updates xs) = int ` {0..<length xs}"
    by simp
  have "sorted (map snd (position_updates xs))"
    by (simp add: snd_position_updates sorted_map sorted_wrt_mono_rel [of _ "(<)"] strict_sorted_iff)
  then show "sort_key snd (position_updates xs) = position_updates xs"
    by (rule sort_key_id_if_sorted)
qed

lemma position_updates_nonneg: "\<forall>u \<in> set (position_updates xs). 0 \<le> snd u"
proof -
  have "set (map snd (position_updates xs)) = int ` {0..<length xs}"
    by (simp add: snd_position_updates)
  then have "snd ` set (position_updates xs) = int ` {0..<length xs}" by simp
  show ?thesis
  proof
    fix u assume "u \<in> set (position_updates xs)"
    then have "snd u \<in> snd ` set (position_updates xs)" by (rule imageI)
    then have "snd u \<in> int ` {0..<length xs}"
      by (simp only: \<open>snd ` set (position_updates xs) = int ` {0..<length xs}\<close>)
    then show "0 \<le> snd u" by auto
  qed
qed

lemma map_of_rev_distinct:
  "distinct (map fst xs) \<Longrightarrow> map_of (rev xs) = map_of xs"
  by (simp add: map_of_inject_set distinct_rev rev_map [symmetric])

lemma getByCheatsheetId_reordered:
  "entriesDB_getByCheatsheetId c (s\<lparr>entries := map (with_position m) (entries s)\<rparr>)
     = map (with_position m) (entriesDB_getByCheatsheetId c s)"
  by (simp add: entriesDB_getByCheatsheetId_def entriesDB_getAll_def getAll_def filter_map
      comp_def)

lemma distinct_map_sort_key:
  "distinct (map f xs) \<Longrightarrow> distinct (map f (sort_key g xs))"
  by (simp add: distinct_map)

lemma set_map_sort_key: "set (map f (sort_key g xs)) = set (map f xs)"
  by simp

lemma map_snd_pair: "map snd (map (\<lambda>e. (f e, g e)) xs) = map g xs"
  by (simp add: comp_def)

lemma sorted_distinct_positions:
  assumes "sorted ps" and "distinct ps" and "set ps = int ` {0..<n}"
  shows "ps = map int [0..<n]"
proof -
  have "sorted (map int [0..<n])"
    by (simp add: sorted_map sorted_wrt_mono_rel [of _ "(<)"] strict_sorted_iff)
  moreover have "distinct (map int [0..<n])"
    by (simp add: distinct_map inj_on_def)
  moreover have "set (map int [0..<n]) = set ps"
    using assms(3) by simp
  ultimately show ?thesis
    using assms(1,2) by (metis sorted_distinct_set_unique)
qed

text \<open>
  Claim C1. In guest mode, on a store whose ids are distinct, let the assignments name each
  entry of the cheatsheet \<open>c\<close> once, and only these, and let their positions be the numbers
  \<open>0\<close> to \<open>n - 1\<close>, where \<open>n\<close> is the number of entries of \<open>c\<close>. Then the reorder succeeds,
  and reading the entries of \<open>c\<close> back gives \<open>n\<close> entries whose positions are
  \<open>0, 1, \<dots>, n - 1\<close> in this order; their ids and positions, in the order read, are the
  submitted pairs sorted by position; and each of them is an entry that \<open>c\<close> had before, with
  nothing but its position changed.
\<close>

theorem reorder_density:
  assumes guest: "\<not> (mode ctx = cloud \<and> supabaseClient ctx)"
    and keys: "distinct (map e_id (entries s))"
    and ids: "distinct (map fst updates)"
    and cover: "fst ` set updates = e_id ` set (entriesDB_getByCheatsheetId c s)"
    and dense: "snd ` set updates = int ` {0..<length (entriesDB_getByCheatsheetId c s)}"
  shows "\<exists>s' es. useReorderEntries ctx replies c updates s = Inr s'
           \<and> useSyntaxEntries ctx q c s' = Inr es
           \<and> map e_position es = map int [0..<length (entriesDB_getByCheatsheetId c s)]
           \<and> map (\<lambda>e. (e_id e, e_position e)) es = sort_key snd updates
           \<and> (\<forall>e' \<in> set es. \<exists>e \<in> set (entriesDB_getByCheatsheetId c s).
                  e' = e\<lparr>e_position := e_position e'\<rparr>)"
proof -
  let ?cur = "entriesDB_getByCheatsheetId c s"
  let ?n = "length ?cur"
  let ?m = "map_of (rev updates)"
  let ?s' = "s\<lparr>entries := map (with_position ?m) (entries s)\<rparr>"
  let ?new = "map (with_position ?m) ?cur"
  let ?es = "sort_key e_position ?new"
  let ?pair = "\<lambda>e. (e_id e, e_position e)"
  have m: "?m = map_of updates"
    using ids by (rule map_of_rev_distinct)
  have run: "useReorderEntries ctx replies c updates s = Inr ?s'"
    using guest keys by (rule reorder_guest)
  have read: "useSyntaxEntries ctx q c ?s' = Inr ?es"
    using guest by (auto simp: useSyntaxEntries_def getByCheatsheetId_reordered)
  have cur_ids: "distinct (map e_id ?cur)"
    using keys by (simp add: entriesDB_getByCheatsheetId_def entriesDB_getAll_def getAll_def
        distinct_map_filter)
  have assigned: "\<exists>p. (e_id e, p) \<in> set updates \<and> with_position ?m e = e\<lparr>e_position := p\<rparr>"
    if "e \<in> set ?cur" for e
  proof -
    from that cover have "e_id e \<in> fst ` set updates" by blast
    then obtain p where p: "map_of updates (e_id e) = Some p"
      by (auto simp: weak_map_of_SomeI ids dest!: map_of_is_SomeI [OF ids])
    then have "(e_id e, p) \<in> set updates" by (rule map_of_SomeD)
    with p show ?thesis by (auto simp: with_position_def m)
  qed
  have pairs: "set (map ?pair ?new) = set updates"
  proof
    show "set (map ?pair ?new) \<subseteq> set updates"
      using assigned by fastforce
    show "set updates \<subseteq> set (map ?pair ?new)"
    proof
      fix u assume u: "u \<in> set updates"
      obtain i p where ip: "u = (i, p)" by (cases u)
      with u cover obtain e where e: "e \<in> set ?cur" "e_id e = i" by force
      from u ip have "map_of updates i = Some p"
        using ids by (simp add: map_of_is_SomeI)
      with e have "?pair (with_position ?m e) = u"
        by (simp add: with_position_def m ip)
      with e(1) show "u \<in> set (map ?pair ?new)" by force
    qed
  qed
  have len: "length updates = ?n"
  proof -
    have "length updates = card (fst ` set updates)"
      using ids by (metis distinct_card length_map set_map)
    also have "\<dots> = card (e_id ` set ?cur)" by (simp add: cover)
    also have "\<dots> = ?n"
      using cur_ids by (metis distinct_card length_map set_map)
    finally show ?thesis .
  qed
  have snd_distinct: "distinct (map snd updates)"
  proof (rule card_distinct)
    have "card (set (map snd updates)) = card (int ` {0..<?n})"
      by (simp add: dense)
    also have "\<dots> = ?n" by (simp add: card_image)
    finally show "card (set (map snd updates)) = length (map snd updates)"
      by (simp add: len)
  qed
  have pos_set: "set (map e_position ?new) = int ` {0..<?n}"
  proof -
    have "set (map e_position ?new) = snd ` set (map ?pair ?new)"
      by (simp add: image_image)
    with pairs dense show ?thesis by simp
  qed
  have pos_distinct: "distinct (map e_position ?new)"
  proof (rule card_distinct)
    have "card (set (map e_position ?new)) = card (int ` {0..<?n})"
      by (simp only: pos_set)
    also have "\<dots> = ?n" by (simp add: card_image)
    finally show "card (set (map e_position ?new)) = length (map e_position ?new)"
      by simp
  qed
  have es_sorted: "sorted (map e_position ?es)"
    by (rule sorted_sort_key)
  have es_distinct: "distinct (map e_position ?es)"
    using pos_distinct by (rule distinct_map_sort_key)
  have positions: "map e_position ?es = map int [0..<?n]"
  proof (rule sorted_distinct_positions [OF es_sorted es_distinct])
    have "set (map e_position ?es) = set (map e_position ?new)"
      by (rule set_map_sort_key)
    then show "set (map e_position ?es) = int ` {0..<?n}"
      by (simp only: pos_set)
  qed
  have es_pairs: "set (map ?pair ?es) = set updates"
  proof -
    have "set (map ?pair ?es) = set (map ?pair ?new)"
      by (rule set_map_sort_key)
    then show ?thesis by (simp only: pairs)
  qed
  have sorted_set: "set (sort_key snd updates) = set updates"
    by simp
  have inj: "inj_on snd (set updates)"
    using snd_distinct by (simp add: distinct_map)
  have snd_pairs: "map snd (map ?pair ?es) = map e_position ?es"
    by (rule map_snd_pair)
  have order: "map ?pair ?es = sort_key snd updates"
  proof (rule map_sorted_distinct_set_unique [where f = snd])
    show "inj_on snd (set (map ?pair ?es) \<union> set (sort_key snd updates))"
      using inj by (simp only: es_pairs sorted_set Un_absorb)
    show "sorted (map snd (map ?pair ?es))"
      using es_sorted by (simp only: snd_pairs)
    show "distinct (map snd (map ?pair ?es))"
      using es_distinct by (simp only: snd_pairs)
    show "sorted (map snd (sort_key snd updates))"
      by (rule sorted_sort_key)
    show "distinct (map snd (sort_key snd updates))"
      using snd_distinct by (rule distinct_map_sort_key)
    show "set (map ?pair ?es) = set (sort_key snd updates)"
      by (simp only: es_pairs sorted_set)
  qed
  have same: "\<forall>e' \<in> set ?es. \<exists>e \<in> set ?cur. e' = e\<lparr>e_position := e_position e'\<rparr>"
  proof
    fix e' assume "e' \<in> set ?es"
    then obtain e where e: "e \<in> set ?cur" "e' = with_position ?m e" by auto
    from assigned [OF e(1)] obtain p where "with_position ?m e = e\<lparr>e_position := p\<rparr>"
      by blast
    with e have "e' = e\<lparr>e_position := e_position e'\<rparr>" by simp
    with e(1) show "\<exists>e \<in> set ?cur. e' = e\<lparr>e_position := e_position e'\<rparr>" ..
  qed
  from run read positions order same show ?thesis by blast
qed

theorem reorder_density_witness:
  "\<not> (mode guest_ctx = cloud \<and> supabaseClient guest_ctx)
   \<and> distinct (map e_id (entries example_db))
   \<and> distinct (map fst (position_updates [entry_filter, entry_map]))
   \<and> fst ` set (position_updates [entry_filter, entry_map])
       = e_id ` set (entriesDB_getByCheatsheetId ''c1'' example_db)
   \<and> snd ` set (position_updates [entry_filter, entry_map])
       = int ` {0..<length (entriesDB_getByCheatsheetId ''c1'' example_db)}
   \<and> (\<exists>s'. useReorderEntries guest_ctx (\<lambda>k. None) ''c1''
                (position_updates [entry_filter, entry_map]) example_db = Inr s'
          \<and> useSyntaxEntries guest_ctx (None, None) ''c1'' s'
               = Inr [entry_filter\<lparr>e_position := 0\<rparr>, entry_map\<lparr>e_position := 1\<rparr>])"
proof -
  have cur: "entriesDB_getByCheatsheetId ''c1'' example_db = [entry_map, entry_filter]"
    by (simp add: example_defs entriesDB_getByCheatsheetId_def entriesDB_getAll_def getAll_def)
  have ups: "position_updates [entry_filter, entry_map] = [(''e2'', 0), (''e1'', 1)]"
    by (simp add: position_updates_def entry_filter_def entry_map_def)
  have h1: "\<not> (mode guest_ctx = cloud \<and> supabaseClient guest_ctx)"
    by (simp add: guest_ctx_def)
  have h2: "distinct (map e_id (entries example_db))"
    by (simp add: example_defs)
  have h3: "distinct (map fst (position_updates [entry_filter, entry_map]))"
    by (simp add: ups)
  have h4: "fst ` set (position_updates [entry_filter, entry_map])
       = e_id ` set (entriesDB_getByCheatsheetId ''c1'' example_db)"
    unfolding ups cur by (auto simp: entry_filter_def entry_map_def)
  have h5: "snd ` set (position_updates [entry_filter, entry_map])
       = int ` {0..<length (entriesDB_getByCheatsheetId ''c1'' example_db)}"
    unfolding ups cur by auto
  from reorder_density [OF h1 h2 h3 h4 h5, of "\<lambda>k. None" "(None, None)"]
  obtain s' es where run: "useReorderEntries guest_ctx (\<lambda>k. None) ''c1''
                (position_updates [entry_filter, entry_map]) example_db = Inr s'"
    and read: "useSyntaxEntries guest_ctx (None, None) ''c1'' s' = Inr es"
    and pairs: "map (\<lambda>e. (e_id e, e_position e)) es
                  = sort_key snd (position_updates [entry_filter, entry_map])"
    and same: "\<forall>e' \<in> set es. \<exists>e \<in> set (entriesDB_getByCheatsheetId ''c1'' example_db).
                  e' = e\<lparr>e_position := e_position e'\<rparr>"
    by blast
  from pairs have "map (\<lambda>e. (e_id e, e_position e)) es = [(''e2'', 0), (''e1'', 1)]"
    by (simp add: ups)
  then obtain a b where es: "es = [a, b]" and a: "e_id a = ''e2''" "e_position a = 0"
    and b: "e_id b = ''e1''" "e_position b = 1"
    by auto
  from same es cur have "a = entry_map\<lparr>e_position := e_position a\<rparr> \<or> a = entry_filter\<lparr>e_position := e_position a\<rparr>"
    and "b = entry_map\<lparr>e_position := e_position b\<rparr> \<or> b = entry_filter\<lparr>e_position := e_position b\<rparr>"
    by auto
  with a b have "a = entry_filter\<lparr>e_position := 0\<rparr>" and "b = entry_map\<lparr>e_position := 1\<rparr>"
    by (auto simp: entry_map_def entry_filter_def)
  with read es have "useSyntaxEntries guest_ctx (None, None) ''c1'' s'
               = Inr [entry_filter\<lparr>e_position := 0\<rparr>, entry_map\<lparr>e_position := 1\<rparr>]"
    by simp
  with run have "\<exists>s'. useReorderEntries guest_ctx (\<lambda>k. None) ''c1''
                (position_updates [entry_filter, entry_map]) example_db = Inr s'
          \<and> useSyntaxEntries guest_ctx (None, None) ''c1'' s'
               = Inr [entry_filter\<lparr>e_position := 0\<rparr>, entry_map\<lparr>e_position := 1\<rparr>]"
    by blast
  with h1 h2 h3 h4 h5 show ?thesis by (intro conjI)
qed

section \<open>Appending an entry\<close>

lemma foldl_max_position:
  "foldl (\<lambda>m entry. max m (or_zero (e_position entry))) a es
     = Max (insert a (e_position ` set es))"
proof (induction es arbitrary: a)
  case Nil
  then show ?case by simp
next
  case (Cons x xs)
  have "Max (insert (max a (e_position x)) (e_position ` set xs))
          = Max (insert a (insert (e_position x) (e_position ` set xs)))"
  proof (cases "xs = []")
    case True
    then show ?thesis by simp
  next
    case False
    then show ?thesis by (simp add: max.assoc)
  qed
  with Cons.IH [of "max a (e_position x)"] show ?case
    by (simp add: or_zero_def)
qed

lemma maxPosition_Max:
  "maxPosition (Some es) = Max (insert (- 1) (e_position ` set es))"
  by (simp add: foldl_max_position)

lemma plus_one_exact: "x < 2 ^ 53 \<Longrightarrow> plus_one x = x + 1"
  by (simp add: plus_one_def)

lemma plus_one_nonneg: "- 1 \<le> x \<Longrightarrow> 0 \<le> plus_one x"
  by (simp add: plus_one_def)

lemma maxPosition_lower: "- 1 \<le> maxPosition es"
proof (cases es)
  case None
  then show ?thesis by simp
next
  case (Some xs)
  then show ?thesis by (simp add: foldl_max_position)
qed

lemma plus_one_maxPosition:
  assumes "\<forall>e \<in> set es. 0 \<le> e_position e \<and> e_position e < 2 ^ 53"
  shows "plus_one (maxPosition (Some es))
           = (if es = [] then 0 else Max (e_position ` set es) + 1)"
proof (cases "es = []")
  case True
  then show ?thesis by (simp add: plus_one_def)
next
  case False
  then have "Max (e_position ` set es) \<in> e_position ` set es"
    by (intro Max_in) auto
  then obtain x where x: "x \<in> set es" "Max (e_position ` set es) = e_position x"
    by auto
  with assms have bounds: "0 \<le> Max (e_position ` set es)" "Max (e_position ` set es) < 2 ^ 53"
    by auto
  from False bounds(1) have "Max (insert (- 1) (e_position ` set es)) = Max (e_position ` set es)"
    by simp
  then have "maxPosition (Some es) = Max (e_position ` set es)"
    by (simp only: maxPosition_Max)
  with False bounds(2) show ?thesis
    by (simp add: plus_one_exact)
qed

text \<open>The editor never creates an entry with a negative position.\<close>

lemma handleSaveEntry_position_nonneg:
  assumes "handleSaveEntry ctx reply generateId now1 now2 cheatsheetId form es s
             = Some (Inr (Some new, s'))"
    and "\<not> (mode ctx = cloud \<and> supabaseClient ctx)"
  shows "0 \<le> e_position new"
proof -
  from assms have "e_position new = plus_one (maxPosition es)"
    by (auto simp: handleSaveEntry_def useCreateEntry_def Let_def split: if_splits)
  with plus_one_nonneg [OF maxPosition_lower [of es]] show ?thesis by simp
qed

lemma insort_key_split:
  "\<exists>as bs. xs = as @ bs \<and> insort_key f x xs = as @ x # bs"
proof (induction xs)
  case Nil
  then show ?case by simp
next
  case (Cons y ys)
  show ?case
  proof (cases "f x \<le> f y")
    case True
    then have "y # ys = [] @ y # ys \<and> insort_key f x (y # ys) = [] @ x # y # ys" by simp
    then show ?thesis by blast
  next
    case False
    from Cons.IH obtain as bs where "ys = as @ bs" "insort_key f x ys = as @ x # bs" by blast
    with False have "y # ys = (y # as) @ bs \<and> insort_key f x (y # ys) = (y # as) @ x # bs"
      by simp
    then show ?thesis by blast
  qed
qed

lemma insort_key_greatest:
  "\<forall>y \<in> set xs. g y < g x \<Longrightarrow> insort_key g x xs = xs @ [x]"
  by (induction xs) auto

lemma insort_key_snoc:
  "g a < g x \<Longrightarrow> insort_key g a (ys @ [x]) = insort_key g a ys @ [x]"
  by (induction ys) auto

lemma sort_key_greatest:
  "\<forall>y \<in> set (as @ bs). g y < g x \<Longrightarrow> sort_key g (as @ x # bs) = sort_key g (as @ bs) @ [x]"
proof (induction as)
  case Nil
  then show ?case by (simp add: insort_key_greatest)
next
  case (Cons a as)
  then show ?case by (simp add: insort_key_snoc)
qed

text \<open>
  Claim C2, as the code has it. The position of a new entry is computed from the data that
  the entries query of the editor holds, not from the store. In guest mode, for an accepted
  form and a new generated id, saving creates an entry of the cheatsheet. Its position is
  \<open>0\<close> when the data is undefined; when the data is a list of entries with positions from
  \<open>0\<close> to below \<open>2^53\<close>, it is \<open>0\<close> for the empty list and otherwise the greatest position
  of the list plus one. The store holds the new entry and, apart from it, exactly the entries
  it held before, unchanged. When the data is the entry list of the cheatsheet as the store
  has it, the new entry is read last.
\<close>

theorem append_ordering:
  assumes guest: "\<not> (mode ctx = cloud \<and> supabaseClient ctx)"
    and valid: "\<not> trim_empty (f_syntax form)" "\<not> trim_empty (f_category form)"
    and fresh: "generateId \<notin> e_id ` set (entries s)"
  shows "\<exists>new s'. handleSaveEntry ctx reply generateId now1 now2 cheatsheetId form loaded s
                     = Some (Inr (Some new, s'))
           \<and> e_id new = generateId \<and> e_cheatsheet_id new = cheatsheetId
           \<and> (loaded = None \<longrightarrow> e_position new = 0)
           \<and> (\<forall>es. loaded = Some es
                    \<and> (\<forall>e \<in> set es. 0 \<le> e_position e \<and> e_position e < 2 ^ 53)
                  \<longrightarrow> e_position new = (if es = [] then 0 else Max (e_position ` set es) + 1))
           \<and> set (entries s') = insert new (set (entries s))
           \<and> filter (\<lambda>e. e_id e \<noteq> generateId) (entries s') = entries s
           \<and> cheatsheets s' = cheatsheets s
           \<and> (\<forall>es. loaded = Some es
                    \<and> useSyntaxEntries ctx q cheatsheetId s = Inr es
                    \<and> (\<forall>e \<in> set es. 0 \<le> e_position e \<and> e_position e < 2 ^ 53)
                  \<longrightarrow> useSyntaxEntries ctx q cheatsheetId s' = Inr (es @ [new]))"
proof -
  define new where "new = \<lparr>e_id = generateId, e_cheatsheet_id = cheatsheetId,
               e_syntax = f_syntax form,
               e_category = f_category form, e_description = Some (f_description form),
               e_example = Some (f_example form), e_notes = None,
               e_display_format = f_displayFormat form, e_language = f_language form,
               e_position = plus_one (maxPosition loaded), e_created_at = now1,
               e_updated_at = now2\<rparr>"
  let ?s' = "entriesDB_put new s"
  let ?mine = "\<lambda>e. e_cheatsheet_id e = cheatsheetId"
  let ?safe = "\<lambda>es. \<forall>e \<in> set es. 0 \<le> e_position e \<and> e_position e < 2 ^ 53"
  have fields: "e_id new = generateId" "e_cheatsheet_id new = cheatsheetId"
    "e_position new = plus_one (maxPosition loaded)"
    by (simp_all add: new_def)
  have dispatch: "(mode ctx = cloud \<and> supabaseClient ctx) = False"
    using guest by simp
  have run: "handleSaveEntry ctx reply generateId now1 now2 cheatsheetId form loaded s
               = Some (Inr (Some new, ?s'))"
    using valid by (simp add: dispatch handleSaveEntry_def useCreateEntry_def Let_def new_def)
  have undefined_data: "loaded = None \<longrightarrow> e_position new = 0"
    by (simp add: fields plus_one_def)
  have pos: "e_position new = (if es = [] then 0 else Max (e_position ` set es) + 1)"
    if "loaded = Some es" and "?safe es" for es
    using plus_one_maxPosition [OF that(2)] that(1) by (simp only: fields)
  have "\<not> (\<exists>x \<in> set (entries s). e_id x = e_id new)"
    using fresh by (auto simp: fields)
  then have store: "entries ?s' = insort_key e_id new (entries s)"
    by (simp add: entriesDB_put_def put_def)
  have members: "set (entries ?s') = insert new (set (entries s))"
    by (simp add: store set_insort_key)
  have "filter (\<lambda>e. e_id e \<noteq> generateId) (entries ?s')
          = filter (\<lambda>e. e_id e \<noteq> generateId) (entries s)"
    unfolding store by (rule filter_insort_triv) (simp add: fields)
  also have "\<dots> = entries s"
    using fresh by (auto simp: filter_id_conv)
  finally have rest: "filter (\<lambda>e. e_id e \<noteq> generateId) (entries ?s') = entries s" .
  have sheets: "cheatsheets ?s' = cheatsheets s"
    by (simp add: entriesDB_put_def)
  have read: "useSyntaxEntries ctx q cheatsheetId ?s' = Inr (es @ [new])"
    if loaded: "loaded = Some es" and listed: "useSyntaxEntries ctx q cheatsheetId s = Inr es"
      and safe: "?safe es" for es
  proof -
    have "useSyntaxEntries ctx q cheatsheetId s
            = Inr (sort_key e_position (filter ?mine (entries s)))"
      by (simp add: dispatch useSyntaxEntries_def entriesDB_getByCheatsheetId_def
          entriesDB_getAll_def getAll_def)
    with listed have es: "es = sort_key e_position (filter ?mine (entries s))"
      by simp
    obtain as bs where split: "entries s = as @ bs"
        "insort_key e_id new (entries s) = as @ new # bs"
      using insort_key_split [of "entries s" e_id new] by blast
    have below: "\<forall>y \<in> set (filter ?mine as @ filter ?mine bs). e_position y < e_position new"
    proof
      fix y assume "y \<in> set (filter ?mine as @ filter ?mine bs)"
      then have y: "y \<in> set es" using es split(1) by auto
      then have "es \<noteq> []" by auto
      moreover from y have "e_position y \<le> Max (e_position ` set es)" by simp
      ultimately show "e_position y < e_position new"
        using pos [OF loaded safe] by simp
    qed
    have "sort_key e_position (filter ?mine (entries ?s'))
            = sort_key e_position (filter ?mine as @ new # filter ?mine bs)"
      by (simp add: store split(2) fields)
    also have "\<dots> = sort_key e_position (filter ?mine as @ filter ?mine bs) @ [new]"
      using below by (rule sort_key_greatest)
    also have "\<dots> = es @ [new]"
      by (simp add: es split(1))
    finally have "sort_key e_position (filter ?mine (entries ?s')) = es @ [new]" .
    then show ?thesis
      by (simp add: dispatch useSyntaxEntries_def entriesDB_getByCheatsheetId_def
          entriesDB_getAll_def getAll_def)
  qed
  from pos have pos_all: "\<forall>es. loaded = Some es \<and> ?safe es
      \<longrightarrow> e_position new = (if es = [] then 0 else Max (e_position ` set es) + 1)"
    by blast
  from read have read_all: "\<forall>es. loaded = Some es
      \<and> useSyntaxEntries ctx q cheatsheetId s = Inr es \<and> ?safe es
      \<longrightarrow> useSyntaxEntries ctx q cheatsheetId ?s' = Inr (es @ [new])"
    by blast
  from run fields(1,2) undefined_data pos_all members rest sheets read_all
  have "handleSaveEntry ctx reply generateId now1 now2 cheatsheetId form loaded s
                     = Some (Inr (Some new, ?s'))
           \<and> e_id new = generateId \<and> e_cheatsheet_id new = cheatsheetId
           \<and> (loaded = None \<longrightarrow> e_position new = 0)
           \<and> (\<forall>es. loaded = Some es \<and> ?safe es
                  \<longrightarrow> e_position new = (if es = [] then 0 else Max (e_position ` set es) + 1))
           \<and> set (entries ?s') = insert new (set (entries s))
           \<and> filter (\<lambda>e. e_id e \<noteq> generateId) (entries ?s') = entries s
           \<and> cheatsheets ?s' = cheatsheets s
           \<and> (\<forall>es. loaded = Some es
                    \<and> useSyntaxEntries ctx q cheatsheetId s = Inr es \<and> ?safe es
                  \<longrightarrow> useSyntaxEntries ctx q cheatsheetId ?s' = Inr (es @ [new]))"
    by (intro conjI)
  then show ?thesis by (intro exI)
qed

theorem append_ordering_witness:
  "\<not> (mode guest_ctx = cloud \<and> supabaseClient guest_ctx)
   \<and> \<not> trim_empty (f_syntax form_reduce) \<and> \<not> trim_empty (f_category form_reduce)
   \<and> ''e7'' \<notin> e_id ` set (entries example_db)
   \<and> useSyntaxEntries guest_ctx (None, None) ''c1'' example_db = Inr [entry_map, entry_filter]
   \<and> 0 \<le> e_position entry_map \<and> e_position entry_map < 2 ^ 53
   \<and> 0 \<le> e_position entry_filter \<and> e_position entry_filter < 2 ^ 53
   \<and> (\<exists>new s'. handleSaveEntry guest_ctx (None, None) ''e7'' 4000 4001 ''c1'' form_reduce
                     (Some [entry_map, entry_filter]) example_db = Some (Inr (Some new, s'))
          \<and> e_position new = 2
          \<and> filter (\<lambda>e. e_id e \<noteq> ''e7'') (entries s') = entries example_db
          \<and> useSyntaxEntries guest_ctx (None, None) ''c1'' s'
               = Inr [entry_map, entry_filter, new])"
proof -
  have h1: "\<not> (mode guest_ctx = cloud \<and> supabaseClient guest_ctx)"
    by (simp add: guest_ctx_def)
  have h2: "\<not> trim_empty (f_syntax form_reduce)"
    by (simp add: form_reduce_def trim_empty_def white_space_def)
  have h3: "\<not> trim_empty (f_category form_reduce)"
    by (simp add: form_reduce_def trim_empty_def white_space_def)
  have h4: "''e7'' \<notin> e_id ` set (entries example_db)"
    by (simp add: example_defs)
  have listed: "useSyntaxEntries guest_ctx (None, None) ''c1'' example_db
              = Inr [entry_map, entry_filter]"
    by (simp add: example_defs useSyntaxEntries_def entriesDB_getByCheatsheetId_def
        entriesDB_getAll_def getAll_def)
  have safe: "0 \<le> e_position entry_map" "e_position entry_map < 2 ^ 53"
    "0 \<le> e_position entry_filter" "e_position entry_filter < 2 ^ 53"
    by (simp_all add: entry_map_def entry_filter_def)
  then have safe_all: "\<forall>e \<in> set [entry_map, entry_filter].
      0 \<le> e_position e \<and> e_position e < 2 ^ 53"
    by simp
  have top: "(if [entry_map, entry_filter] = [] then 0
              else Max (e_position ` set [entry_map, entry_filter]) + 1) = 2"
    by (simp add: entry_map_def entry_filter_def)
  from append_ordering [OF h1 h2 h3 h4, of "(None, None)" 4000 4001 "''c1''"
      "Some [entry_map, entry_filter]" "(None, None)"]
  obtain new s' where
    run: "handleSaveEntry guest_ctx (None, None) ''e7'' 4000 4001 ''c1'' form_reduce
                     (Some [entry_map, entry_filter]) example_db = Some (Inr (Some new, s'))"
    and pos: "\<forall>es. Some [entry_map, entry_filter] = Some es
                    \<and> (\<forall>e \<in> set es. 0 \<le> e_position e \<and> e_position e < 2 ^ 53)
                  \<longrightarrow> e_position new = (if es = [] then 0 else Max (e_position ` set es) + 1)"
    and rest: "filter (\<lambda>e. e_id e \<noteq> ''e7'') (entries s') = entries example_db"
    and read: "\<forall>es. Some [entry_map, entry_filter] = Some es
                    \<and> useSyntaxEntries guest_ctx (None, None) ''c1'' example_db = Inr es
                    \<and> (\<forall>e \<in> set es. 0 \<le> e_position e \<and> e_position e < 2 ^ 53)
                  \<longrightarrow> useSyntaxEntries guest_ctx (None, None) ''c1'' s' = Inr (es @ [new])"
    by blast
  from pos safe_all have "e_position new
      = (if [entry_map, entry_filter] = [] then 0
         else Max (e_position ` set [entry_map, entry_filter]) + 1)"
    by blast
  then have two: "e_position new = 2"
    by (simp only: top)
  from read listed safe_all
  have "useSyntaxEntries guest_ctx (None, None) ''c1'' s' = Inr ([entry_map, entry_filter] @ [new])"
    by blast
  then have last: "useSyntaxEntries guest_ctx (None, None) ''c1'' s'
      = Inr [entry_map, entry_filter, new]"
    by simp
  from run two rest last
  have "\<exists>new s'. handleSaveEntry guest_ctx (None, None) ''e7'' 4000 4001 ''c1'' form_reduce
                     (Some [entry_map, entry_filter]) example_db = Some (Inr (Some new, s'))
          \<and> e_position new = 2
          \<and> filter (\<lambda>e. e_id e \<noteq> ''e7'') (entries s') = entries example_db
          \<and> useSyntaxEntries guest_ctx (None, None) ''c1'' s'
               = Inr [entry_map, entry_filter, new]"
    by blast
  with h1 h2 h3 h4 listed safe show ?thesis by (intro conjI)
qed

text \<open>
  Claim C2 as stated fails when the handler runs while the data of the entries query is
  still undefined: the cheatsheet \<open>c1\<close> holds entries at the positions 0 and 1, and the new
  entry is stored with position 0, not 2.
\<close>

theorem append_before_entries_load:
  "useSyntaxEntries guest_ctx (None, None) ''c1'' example_db = Inr [entry_map, entry_filter]
   \<and> e_position entry_map = 0 \<and> e_position entry_filter = 1
   \<and> handleSaveEntry guest_ctx (None, None) ''e7'' 4000 4001 ''c1'' form_reduce None example_db
       = Some (Inr (Some entry_reduce,
            \<lparr>cheatsheets = [sheet_js, sheet_py],
             entries = [entry_map, entry_filter, entry_len, entry_reduce]\<rparr>))
   \<and> e_position entry_reduce = 0"
  by (simp add: example_defs form_reduce_def entry_reduce_def useSyntaxEntries_def
      entriesDB_getByCheatsheetId_def entriesDB_getAll_def getAll_def handleSaveEntry_def
      useCreateEntry_def entriesDB_put_def put_def trim_empty_def white_space_def plus_one_def
      Let_def)

end
